theory Spec2Isabelle
  imports Main "HOL-Library.AList"
begin

section \<open>The platform: errors, paths and the file system\<close>

text \<open>
  The program is a TypeScript editor extension.  Everything it does goes through the
  Node.js file system, the \<open>path\<close> module, \<open>JSON\<close> and an external command-line tool.
  These are modelled as follows.
  \<^item> A thrown \<open>Error\<close> is a value \<open>Error msg\<close>; a function that can throw returns
    \<open>error + 'a\<close>, and an asynchronous function that changes files returns its result
    together with the file system it leaves behind (also when it throws).
  \<^item> A path is the list of its segments below the root \<open>/\<close> (POSIX paths, normalised):
    \<open>/ws/src/a.js\<close> is \<open>[''ws'', ''src'', ''a.js'']\<close>.
  \<^item> The file system is a tree.  A file holds bytes; a byte is a \<open>char\<close>, one of 256
    values, so the bytes of a file are a \<open>string\<close>.  An operation fails for structural
    reasons only: a missing entry, a file where a directory is needed, a directory where a
    file is needed.
  \<^item> A JavaScript string that is read from a file or written to one is the list of its
    Unicode code points (\<open>utext\<close>).  Reading with the encoding \<open>'utf8'\<close> decodes the bytes,
    writing with it encodes the code points.
\<close>

datatype error = Error string

type_synonym path = "string list"

datatype node = File string | Dir "(string \<times> node) list"

fun lookup :: "node \<Rightarrow> path \<Rightarrow> node option" where
  "lookup n [] = Some n"
| "lookup (File c) (s # p) = None"
| "lookup (Dir es) (s # p) = (case map_of es s of None \<Rightarrow> None | Some ch \<Rightarrow> lookup ch p)"

definition existsSync :: "node \<Rightarrow> path \<Rightarrow> bool" where
  "existsSync fs p = (lookup fs p \<noteq> None)"

text \<open>\<open>readFile(p)\<close> without an encoding returns the bytes of the file, as a \<open>Buffer\<close>.\<close>

definition readFile :: "node \<Rightarrow> path \<Rightarrow> error + string" where
  "readFile fs p =
     (case lookup fs p of
        None \<Rightarrow> Inl (Error ''ENOENT: no such file or directory'')
      | Some (Dir es) \<Rightarrow> Inl (Error ''EISDIR: illegal operation on a directory'')
      | Some (File c) \<Rightarrow> Inr c)"

text \<open>\<open>writeFile(p, buffer)\<close> creates or overwrites a file with the bytes given; the
  directory that holds it must exist.\<close>

fun writeFile :: "node \<Rightarrow> path \<Rightarrow> string \<Rightarrow> error + node" where
  "writeFile (File old) [] c = Inr (File c)"
| "writeFile (Dir es) [] c = Inl (Error ''EISDIR: illegal operation on a directory'')"
| "writeFile (File old) (s # p) c = Inl (Error ''ENOTDIR: not a directory'')"
| "writeFile (Dir es) (s # p) c =
     (case map_of es s of
        None \<Rightarrow>
          (if p = [] then Inr (Dir (AList.update s (File c) es))
           else Inl (Error ''ENOENT: no such file or directory''))
      | Some ch \<Rightarrow>
          (case writeFile ch p c of
             Inl e \<Rightarrow> Inl e
           | Inr ch' \<Rightarrow> Inr (Dir (AList.update s ch' es))))"

definition copyFile :: "node \<Rightarrow> path \<Rightarrow> path \<Rightarrow> error + node" where
  "copyFile fs src dst =
     (case readFile fs src of Inl e \<Rightarrow> Inl e | Inr c \<Rightarrow> writeFile fs dst c)"

text \<open>\<open>mkdirSync(p, {recursive: true})\<close> creates every missing directory on the way.\<close>

fun mkdirSync :: "node \<Rightarrow> path \<Rightarrow> error + node" where
  "mkdirSync (Dir es) [] = Inr (Dir es)"
| "mkdirSync (File c) [] = Inl (Error ''EEXIST: file already exists'')"
| "mkdirSync (File c) (s # p) = Inl (Error ''ENOTDIR: not a directory'')"
| "mkdirSync (Dir es) (s # p) =
     (case mkdirSync (case map_of es s of None \<Rightarrow> Dir [] | Some ch \<Rightarrow> ch) p of
        Inl e \<Rightarrow> Inl e
      | Inr ch' \<Rightarrow> Inr (Dir (AList.update s ch' es)))"

text \<open>\<open>stat\<close>: the size in bytes and the kind of an entry.  The size reported for a
  directory depends on the file system; the model reports the number of its entries.\<close>

record stats =
  stat_size :: int
  stat_isDirectory :: bool

definition stat :: "node \<Rightarrow> path \<Rightarrow> error + stats" where
  "stat fs p =
     (case lookup fs p of
        None \<Rightarrow> Inl (Error ''ENOENT: no such file or directory'')
      | Some (File c) \<Rightarrow> Inr \<lparr>stat_size = int (length c), stat_isDirectory = False\<rparr>
      | Some (Dir es) \<Rightarrow> Inr \<lparr>stat_size = int (length es), stat_isDirectory = True\<rparr>)"


fun is_Dir :: "node \<Rightarrow> bool" where
  "is_Dir (Dir es) = True"
| "is_Dir (File c) = False"


text \<open>The bytes of the file at a path, if there is a file.\<close>

definition content :: "node \<Rightarrow> path \<Rightarrow> string option" where
  "content fs p = (case lookup fs p of Some (File c) \<Rightarrow> Some c | _ \<Rightarrow> None)"

subsection \<open>The encoding \<open>'utf8'\<close>\<close>

text \<open>
  Decoding never fails: Node.js puts the replacement character U+FFFD for every maximal
  ill-formed part of the bytes (the decoder of the Encoding Standard, without the removal
  of a byte order mark).  \<open>utf8_decode_from cp needed lower upper\<close> is that decoder in the
  state where \<open>needed\<close> continuation bytes are awaited, the next one between \<open>lower\<close> and
  \<open>upper\<close>, and \<open>cp\<close> holds the bits read so far.  A byte that cannot continue the
  sequence ends it with U+FFFD and is decoded again as the start of a sequence.
\<close>

type_synonym utext = "int list"

fun utf8_decode_from :: "int \<Rightarrow> nat \<Rightarrow> int \<Rightarrow> int \<Rightarrow> string \<Rightarrow> utext" where
  "utf8_decode_from cp needed lower upper [] = (if needed = 0 then [] else [0xFFFD])"
| "utf8_decode_from cp needed lower upper (b # bs) =
     (let byte = of_char b in
      if needed = 0 then
        (if byte < 0x80 then byte # utf8_decode_from 0 0 0x80 0xBF bs
         else if 0xC2 \<le> byte \<and> byte \<le> 0xDF then utf8_decode_from (byte - 0xC0) 1 0x80 0xBF bs
         else if 0xE0 \<le> byte \<and> byte \<le> 0xEF then
           utf8_decode_from (byte - 0xE0) 2
             (if byte = 0xE0 then 0xA0 else 0x80) (if byte = 0xED then 0x9F else 0xBF) bs
         else if 0xF0 \<le> byte \<and> byte \<le> 0xF4 then
           utf8_decode_from (byte - 0xF0) 3
             (if byte = 0xF0 then 0x90 else 0x80) (if byte = 0xF4 then 0x8F else 0xBF) bs
         else 0xFFFD # utf8_decode_from 0 0 0x80 0xBF bs)
      else if byte < lower \<or> upper < byte
        then 0xFFFD # utf8_decode_from 0 0 0x80 0xBF (b # bs)
      else if needed = 1 then (cp * 64 + (byte - 0x80)) # utf8_decode_from 0 0 0x80 0xBF bs
      else utf8_decode_from (cp * 64 + (byte - 0x80)) (needed - 1) 0x80 0xBF bs)"

definition utf8_decode :: "string \<Rightarrow> utext" where
  "utf8_decode bs = utf8_decode_from 0 0 0x80 0xBF bs"

text \<open>
  Encoding: one to four bytes for a code point.  A surrogate that stands alone in a
  JavaScript string is written as U+FFFD (\<open>EF BF BD\<close>); so is, in the model, a number
  that is no code point.
\<close>

definition utf8_encode_code_point :: "int \<Rightarrow> string" where
  "utf8_encode_code_point c =
     (if 0 \<le> c \<and> c < 0x80 then [char_of c]
      else if 0x80 \<le> c \<and> c < 0x800 then [char_of (0xC0 + c div 64), char_of (0x80 + c mod 64)]
      else if (0x800 \<le> c \<and> c < 0xD800) \<or> (0xE000 \<le> c \<and> c < 0x10000) then
        [char_of (0xE0 + c div 4096), char_of (0x80 + (c div 64) mod 64),
         char_of (0x80 + c mod 64)]
      else if 0x10000 \<le> c \<and> c < 0x110000 then
        [char_of (0xF0 + c div 262144), char_of (0x80 + (c div 4096) mod 64),
         char_of (0x80 + (c div 64) mod 64), char_of (0x80 + c mod 64)]
      else [CHR 0xEF, CHR 0xBF, CHR 0xBD])"

definition utf8_encode :: "utext \<Rightarrow> string" where
  "utf8_encode t = concat (map utf8_encode_code_point t)"

text \<open>Bytes that decoding and encoding again leave as they are: well-formed UTF-8, that
  is, the encoding of some text (lemma \<open>valid_utf8_iff\<close>).\<close>

definition valid_utf8 :: "string \<Rightarrow> bool" where
  "valid_utf8 c = (utf8_encode (utf8_decode c) = c)"

text \<open>What a code point is after it was encoded and decoded again.\<close>

definition scalar_or_replacement :: "int \<Rightarrow> int" where
  "scalar_or_replacement c =
     (if (0 \<le> c \<and> c < 0xD800) \<or> (0xE000 \<le> c \<and> c < 0x110000) then c else 0xFFFD)"

text \<open>\<open>readFile(p, 'utf8')\<close> and \<open>writeFile(p, text, 'utf8')\<close>\<close>

definition readFile_utf8 :: "node \<Rightarrow> path \<Rightarrow> error + utext" where
  "readFile_utf8 fs p =
     (case readFile fs p of Inl e \<Rightarrow> Inl e | Inr c \<Rightarrow> Inr (utf8_decode c))"

definition writeFile_utf8 :: "node \<Rightarrow> path \<Rightarrow> utext \<Rightarrow> error + node" where
  "writeFile_utf8 fs p t = writeFile fs p (utf8_encode t)"

subsection \<open>The \<open>path\<close> module\<close>

text \<open>\<open>path.join\<close> appends segments to a path and normalises: \<open>..\<close> steps up (the root
  is its own parent), \<open>.\<close> and empty segments vanish.\<close>

definition join_step :: "path \<Rightarrow> string \<Rightarrow> path" where
  "join_step p s =
     (if s = ''..'' then butlast p else if s = ''.'' \<or> s = [] then p else p @ [s])"

definition path_join :: "path \<Rightarrow> string list \<Rightarrow> path" where
  "path_join p segs = foldl join_step p segs"

definition dirname :: "path \<Rightarrow> path" where
  "dirname p = butlast p"

definition basename :: "path \<Rightarrow> string" where
  "basename p = (if p = [] then [] else last p)"

text \<open>\<open>path.relative(from, to)\<close> for two absolute paths: the segments of \<open>to\<close> below the
  common prefix, after one \<open>..\<close> for each remaining segment of \<open>from\<close>.\<close>

fun path_relative :: "path \<Rightarrow> path \<Rightarrow> string list" where
  "path_relative (a # as) (b # bs) =
     (if a = b then path_relative as bs else replicate (Suc (length as)) ''..'' @ (b # bs))"
| "path_relative as bs = replicate (length as) ''..'' @ bs"

text \<open>A string is cut into segments at every \<open>/\<close>.\<close>

fun split_at :: "char \<Rightarrow> string \<Rightarrow> string list" where
  "split_at d [] = [[]]"
| "split_at d (c # cs) =
     (if c = d then [] # split_at d cs
      else (case split_at d cs of [] \<Rightarrow> [[c]] | w # ws \<Rightarrow> (c # w) # ws))"

text \<open>The text of a path, as it is stored in a metadata file: \<open>/\<close> before every segment.\<close>

definition path_string :: "path \<Rightarrow> string" where
  "path_string p = (if p = [] then ''/'' else concat (map (\<lambda>s. CHR ''/'' # s) p))"

text \<open>Appending a suffix to the text of a path changes its last segment.\<close>

definition add_suffix :: "path \<Rightarrow> string \<Rightarrow> path" where
  "add_suffix p sfx = (if p = [] then [sfx] else butlast p @ [last p @ sfx])"

subsection \<open>JSON documents and JavaScript values\<close>

text \<open>
  \<open>JSON.parse\<close> and \<open>JSON.stringify\<close> belong to the JavaScript runtime; the model takes
  them as parameters (fields of the record \<open>host\<close> below) and fixes only the documents.
  A JavaScript value that may be \<open>undefined\<close> is a \<open>json option\<close>.  Reading a property
  of \<open>null\<close> throws; reading a property of a document sees the fields of the document
  itself, and of anything that is not an object it yields \<open>undefined\<close>.
\<close>

datatype json =
  JNull | JBool bool | JNum int | JStr string | JArr "json list" | JObj "(string \<times> json) list"

fun truthy :: "json option \<Rightarrow> bool" where
  "truthy None = False"
| "truthy (Some JNull) = False"
| "truthy (Some (JBool b)) = b"
| "truthy (Some (JNum n)) = (n \<noteq> 0)"
| "truthy (Some (JStr s)) = (s \<noteq> [])"
| "truthy (Some (JArr xs)) = True"
| "truthy (Some (JObj kvs)) = True"

fun get_prop :: "json \<Rightarrow> string \<Rightarrow> error + json option" where
  "get_prop JNull k = Inl (Error ''TypeError: Cannot read properties of null'')"
| "get_prop (JObj kvs) k = Inr (map_of kvs k)"
| "get_prop v k = Inr None"

text \<open>A property that is read where reading cannot throw, or where a throw is caught and
  the value is then left undefined.\<close>

definition field :: "json \<Rightarrow> string \<Rightarrow> json option" where
  "field j k = (case get_prop j k of Inl e \<Rightarrow> None | Inr v \<Rightarrow> v)"

text \<open>\<open>x || ''\<close>\<close>

definition or_empty :: "json option \<Rightarrow> json" where
  "or_empty v = (if truthy v then the v else JStr [])"

fun join_with :: "string \<Rightarrow> string list \<Rightarrow> string" where
  "join_with sep [] = []"
| "join_with sep [x] = x"
| "join_with sep (x # y # ys) = x @ sep @ join_with sep (y # ys)"

subsection \<open>The editor host\<close>

text \<open>
  What the program reads from the editor: the workspace folders, the setting
  \<open>suitecloudbackup.defaultAuthId\<close>, and the runtime's JSON functions.
\<close>

record host =
  workspaceFolders :: "path list"
  cfg_defaultAuthId :: "string option"
  JSON_parse :: "utext \<Rightarrow> json option"
  JSON_stringify :: "json \<Rightarrow> utext"

section \<open>BackupManager (\<open>src/backupManager.ts\<close>)\<close>

text \<open>
  The state of a \<open>BackupManager\<close>: the backup directory and, once
  \<open>setSuiteCloudManager\<close> was called, the account information of the
  \<open>SuiteCloudManager\<close> (a map from authentication ID to \<open>{name, id, url}\<close>).
  There is no other field: in particular no index of the backups.
  Writing to the log channel and firing \<open>onDidChangeBackups\<close> are not modelled.
\<close>

record AccountInfo =
  acc_name :: json
  acc_id :: json
  acc_url :: json

record BackupManager =
  baseBackupDir :: path
  suiteCloudManager :: "(string \<times> AccountInfo) list option"

datatype source = Local | Account

fun source_text :: "source \<Rightarrow> string" where
  "source_text Local = ''local''"
| "source_text Account = ''account''"

definition ensureDirectoryExists :: "node \<Rightarrow> path \<Rightarrow> error + node" where
  "ensureDirectoryExists fs dirPath =
     (if \<not> existsSync fs dirPath then
        (case mkdirSync fs dirPath of
           Inl e \<Rightarrow> Inl (Error (''Failed to create directory: '' @ path_string dirPath))
         | Inr fs' \<Rightarrow> Inr fs')
      else Inr fs)"

text \<open>\<open>getAuthId\<close>: the setting, else \<open>defaultAuthId\<close> of \<open>project.json\<close> in the first
  workspace folder.  An error while reading \<open>project.json\<close> is caught and logged.\<close>

definition getAuthId :: "host \<Rightarrow> node \<Rightarrow> json option" where
  "getAuthId h fs =
     (let authId = map_option JStr (cfg_defaultAuthId h) in
      if truthy authId then authId
      else
        (case workspaceFolders h of
           [] \<Rightarrow> authId
         | root # others \<Rightarrow>
             (let projectJsonPath = path_join root [''project.json''] in
              if existsSync fs projectJsonPath then
                (case readFile_utf8 fs projectJsonPath of
                   Inl e \<Rightarrow> authId
                 | Inr txt \<Rightarrow>
                     (case JSON_parse h txt of
                        None \<Rightarrow> authId
                      | Some projectData \<Rightarrow>
                          (case get_prop projectData ''defaultAuthId'' of
                             Inl e \<Rightarrow> authId
                           | Inr v \<Rightarrow> v)))
              else authId)))"

text \<open>
  \<open>getRelativePath\<close>.  The result is a relative path, kept as its segments (its text is
  \<open>join_with ''/''\<close> of them); without a workspace folder it is the absolute path itself,
  whose text starts with \<open>/\<close>.  A result that contains \<open>:\<close> loses a leading drive
  letter \<open>/^[a-zA-Z]:[\\\/]/\<close>.
\<close>

definition is_letter :: "char \<Rightarrow> bool" where
  "is_letter c =
     (let n = (of_char c :: nat) in (97 \<le> n \<and> n \<le> 122) \<or> (65 \<le> n \<and> n \<le> 90))"

fun strip_drive :: "string list \<Rightarrow> string list" where
  "strip_drive ((a # b # c # rest) # others) =
     (if is_letter a \<and> b = CHR '':'' \<and> c = CHR 0x5C then rest # others
      else (a # b # c # rest) # others)"
| "strip_drive ([a, b] # m # others) =
     (if is_letter a \<and> b = CHR '':'' then m # others else [a, b] # m # others)"
| "strip_drive segs = segs"

definition getRelativePath :: "host \<Rightarrow> path \<Rightarrow> string list" where
  "getRelativePath h filePath =
     (case workspaceFolders h of
        [] \<Rightarrow> [] # (if filePath = [] then [[]] else filePath)
      | workspaceRoot # others \<Rightarrow>
          (let relativePath = path_relative workspaceRoot filePath in
           if CHR '':'' \<in> set (join_with ''/'' relativePath) then strip_drive relativePath
           else relativePath))"

text \<open>The account descriptor stored with a backup: the one of the \<open>SuiteCloudManager\<close>
  if there is one for the authentication ID, else empty; and when it has neither a name
  nor an id, the fields \<open>companyName\<close>, \<open>companyId\<close> and \<open>netSuiteUrl\<close> of
  \<open>accountSpecificValues[authId]\<close> in \<open>project.json\<close>, if that entry is there.  An error
  while reading \<open>project.json\<close> is caught and logged.\<close>

definition projectAccountInfo :: "host \<Rightarrow> node \<Rightarrow> string \<Rightarrow> AccountInfo \<Rightarrow> AccountInfo" where
  "projectAccountInfo h fs authId accountInfo =
     (case workspaceFolders h of
        [] \<Rightarrow> accountInfo
      | root # others \<Rightarrow>
          (let projectJsonPath = path_join root [''project.json''] in
           if existsSync fs projectJsonPath then
             (case readFile_utf8 fs projectJsonPath of
                Inl e \<Rightarrow> accountInfo
              | Inr txt \<Rightarrow>
                  (case JSON_parse h txt of
                     None \<Rightarrow> accountInfo
                   | Some projectData \<Rightarrow>
                       (case get_prop projectData ''accountSpecificValues'' of
                          Inl e \<Rightarrow> accountInfo
                        | Inr asv \<Rightarrow>
                            if truthy asv then
                              (case get_prop (the asv) authId of
                                 Inl e \<Rightarrow> accountInfo
                               | Inr acctInfo \<Rightarrow>
                                   if truthy acctInfo then
                                     (case (get_prop (the acctInfo) ''companyName'',
                                            get_prop (the acctInfo) ''companyId'',
                                            get_prop (the acctInfo) ''netSuiteUrl'') of
                                        (Inr n, Inr i, Inr u) \<Rightarrow>
                                          \<lparr>acc_name = or_empty n, acc_id = or_empty i,
                                           acc_url = or_empty u\<rparr>
                                      | _ \<Rightarrow> accountInfo)
                                   else accountInfo)
                            else accountInfo)))
           else accountInfo))"

definition backupAccountInfo :: "BackupManager \<Rightarrow> host \<Rightarrow> node \<Rightarrow> string \<Rightarrow> AccountInfo" where
  "backupAccountInfo m h fs authId =
     (let empty = \<lparr>acc_name = JStr [], acc_id = JStr [], acc_url = JStr []\<rparr>;
          accountInfo =
            (case suiteCloudManager m of
               None \<Rightarrow> empty
             | Some infos \<Rightarrow> (case map_of infos authId of None \<Rightarrow> empty | Some info \<Rightarrow> info))
      in if \<not> truthy (Some (acc_name accountInfo)) \<and> \<not> truthy (Some (acc_id accountInfo))
         then projectAccountInfo h fs authId accountInfo
         else accountInfo)"

definition accountInfo_json :: "AccountInfo \<Rightarrow> json" where
  "accountInfo_json a =
     JObj [(''name'', acc_name a), (''id'', acc_id a), (''url'', acc_url a)]"

text \<open>The metadata object of a backup, in the order of its literal.\<close>

definition metadata :: "path \<Rightarrow> string \<Rightarrow> source \<Rightarrow> string \<Rightarrow> string list \<Rightarrow> AccountInfo \<Rightarrow> json" where
  "metadata fsPath isoText src authId relativePath accountInfo =
     JObj [(''originalFile'', JStr (path_string fsPath)),
           (''timestamp'', JStr isoText),
           (''source'', JStr (source_text src)),
           (''authId'', JStr authId),
           (''relativePath'', JStr (join_with ''/'' relativePath)),
           (''accountInfo'', accountInfo_json accountInfo)]"

text \<open>\<open>new Date().toISOString().replace(/[:.]/g, '-')\<close>, given the ISO text.\<close>

definition timestamp_text :: "string \<Rightarrow> string" where
  "timestamp_text isoText = map (\<lambda>c. if c = CHR '':'' \<or> c = CHR ''.'' then CHR ''-'' else c) isoText"

definition backupDir_of :: "BackupManager \<Rightarrow> string \<Rightarrow> source \<Rightarrow> string list \<Rightarrow> path" where
  "backupDir_of m authId src relativePath =
     path_join (baseBackupDir m)
       (split_at CHR ''/'' authId @ [source_text src] @ dirname relativePath)"

definition backupFileName :: "string list \<Rightarrow> string \<Rightarrow> string" where
  "backupFileName relativePath isoText =
     basename relativePath @ ''.'' @ timestamp_text isoText @ ''.bak''"

definition backupPath_of :: "path \<Rightarrow> string list \<Rightarrow> string \<Rightarrow> path" where
  "backupPath_of backupDir relativePath isoText =
     path_join backupDir [backupFileName relativePath isoText]"

text \<open>
  \<open>createBackup(uri, source)\<close>.  The file is read and the backup written as text, with
  the encoding \<open>'utf8'\<close>.  The clock is read twice, for the file name and for the
  metadata: \<open>clock\<close> is the pair of the two ISO texts.  The file name and the ISO text
  contain no \<open>/\<close>, so the backup file name is one segment.  An authentication ID that is
  not a string makes \<open>path.join\<close> throw.  Every error is rethrown as
  \<open>Failed to create backup: ...\<close>; the files written before it stay.
\<close>

definition createBackup_try ::
  "BackupManager \<Rightarrow> host \<Rightarrow> string \<times> string \<Rightarrow> path \<Rightarrow> source \<Rightarrow> node \<Rightarrow> (error + path) \<times> node" where
  "createBackup_try m h clock fsPath src fs =
     (let a = getAuthId h fs in
      if \<not> truthy a then (Inl (Error ''No authentication ID found''), fs)
      else
        (case a of
           Some (JStr authId) \<Rightarrow>
             (let relativePath = getRelativePath h fsPath;
                  backupDir = backupDir_of m authId src relativePath in
              case ensureDirectoryExists fs backupDir of
                Inl e \<Rightarrow> (Inl e, fs)
              | Inr fs1 \<Rightarrow>
                  (let backupPath = backupPath_of backupDir relativePath (fst clock);
                       accountInfo = backupAccountInfo m h fs1 authId;
                       metadataPath = add_suffix backupPath ''.meta.json'';
                       meta = metadata fsPath (snd clock) src authId relativePath accountInfo in
                   case readFile_utf8 fs1 fsPath of
                     Inl e \<Rightarrow> (Inl e, fs1)
                   | Inr fileContent \<Rightarrow>
                       (case writeFile_utf8 fs1 backupPath fileContent of
                          Inl e \<Rightarrow> (Inl e, fs1)
                        | Inr fs2 \<Rightarrow>
                            (case writeFile_utf8 fs2 metadataPath (JSON_stringify h meta) of
                               Inl e \<Rightarrow> (Inl e, fs2)
                             | Inr fs3 \<Rightarrow> (Inr backupPath, fs3)))))
         | _ \<Rightarrow>
             (Inl (Error ''TypeError: The path argument must be of type string''), fs)))"

fun message :: "error \<Rightarrow> string" where
  "message (Error msg) = msg"

definition createBackup ::
  "BackupManager \<Rightarrow> host \<Rightarrow> string \<times> string \<Rightarrow> path \<Rightarrow> source \<Rightarrow> node \<Rightarrow> (error + path) \<times> node" where
  "createBackup m h clock fsPath src fs =
     (case createBackup_try m h clock fsPath src fs of
        (Inl e, fs') \<Rightarrow> (Inl (Error (''Failed to create backup: '' @ message e)), fs')
      | (Inr backupPath, fs') \<Rightarrow> (Inr backupPath, fs'))"

text \<open>
  A timer set by the program and an operation raced against it with \<open>Promise.race\<close>:
  which of the two settles first is decided outside the program.
\<close>

datatype timer = InTime | Expired

definition race :: "timer \<Rightarrow> error \<Rightarrow> (error + 'a) \<Rightarrow> error + 'a" where
  "race t timeoutError r = (case t of Expired \<Rightarrow> Inl timeoutError | InTime \<Rightarrow> r)"

definition timeoutMs :: int where
  "timeoutMs = 120000"

fun digit_text :: "nat \<Rightarrow> string" where
  "digit_text n = [char_of (48 + n mod 10)]"

text \<open>The decimal text of a number, as a template literal prints it; the first argument
  of \<open>decimal\<close> bounds the number of digits (JavaScript prints a number in plain decimal
  up to 21 digits).\<close>

fun decimal :: "nat \<Rightarrow> nat \<Rightarrow> string" where
  "decimal 0 n = digit_text n"
| "decimal (Suc k) n = (if n < 10 then digit_text n else decimal k (n div 10) @ digit_text n)"

definition nat_text :: "nat \<Rightarrow> string" where
  "nat_text n = decimal 20 n"

text \<open>
  \<open>restoreFile(targetUri, backupPath)\<close>.  A missing or empty argument is \<open>None\<close>.
  The direct copy is tried first, and it is not raced against the timer.  If it fails,
  the backup is read (as a \<open>Buffer\<close> if it is larger than 5 MiB, else as text) and the
  target written, each raced against the one timer of 120 seconds (\<open>timers\<close> says for the
  read and for the write whether the timer wins).  When the timer wins against the write,
  the model returns the file system as it was before the write; whether the abandoned
  write is still carried out is not modelled.  Every error is rethrown as it is.
\<close>

datatype data = Buffer string | Text utext

fun data_bytes :: "data \<Rightarrow> string" where
  "data_bytes (Buffer b) = b"
| "data_bytes (Text t) = utf8_encode t"

definition readBackup :: "stats \<Rightarrow> node \<Rightarrow> path \<Rightarrow> error + data" where
  "readBackup stats fs backupPath =
     (if stat_size stats > 5 * 1024 * 1024
      then (case readFile fs backupPath of Inl e \<Rightarrow> Inl e | Inr b \<Rightarrow> Inr (Buffer b))
      else (case readFile_utf8 fs backupPath of Inl e \<Rightarrow> Inl e | Inr t \<Rightarrow> Inr (Text t)))"

definition restoreFile ::
  "timer \<times> timer \<Rightarrow> path option \<Rightarrow> path option \<Rightarrow> node \<Rightarrow> (error + unit) \<times> node" where
  "restoreFile timers targetUri backupPath' fs =
     (case backupPath' of
        None \<Rightarrow> (Inl (Error ''Backup path is undefined or empty''), fs)
      | Some backupPath \<Rightarrow>
     (case targetUri of
        None \<Rightarrow> (Inl (Error ''Target URI is invalid or missing fsPath''), fs)
      | Some target \<Rightarrow>
     if \<not> existsSync fs backupPath
     then (Inl (Error (''Backup file not found: '' @ path_string backupPath)), fs)
     else
       (let timeoutError =
              Error (''File restoration timed out after '' @ nat_text (nat (timeoutMs div 1000)) @ '' seconds'') in
        case stat fs backupPath of
          Inl e \<Rightarrow> (Inl e, fs)
        | Inr stats \<Rightarrow>
            (case ensureDirectoryExists fs (dirname target) of
               Inl e \<Rightarrow> (Inl e, fs)
             | Inr fs1 \<Rightarrow>
                 (case copyFile fs1 backupPath target of
                    Inr fs2 \<Rightarrow> (Inr (), fs2)
                  | Inl copyError \<Rightarrow>
                      (case race (fst timers) timeoutError (readBackup stats fs1 backupPath) of
                         Inl e \<Rightarrow> (Inl e, fs1)
                       | Inr backupContent \<Rightarrow>
                           (case race (snd timers) timeoutError
                                   (writeFile fs1 target (data_bytes backupContent)) of
                              Inl e \<Rightarrow> (Inl e, fs1)
                            | Inr fs2 \<Rightarrow>
                                if \<not> existsSync fs2 target
                                then (Inl (Error (''Target file not found after write: ''
                                                   @ path_string target)), fs2)
                                else (Inr (), fs2))))))))"

text \<open>
  \<open>compareFiles(file1Path, file2Path)\<close>: first the body of its \<open>try\<close>, then the function,
  whose \<open>catch\<close> answers \<open>true\<close> (the files are taken to differ).  The sizes compared are
  the sizes in bytes; the contents compared are the texts read with \<open>'utf8'\<close>.  The two
  reads are raced against one timer of 120 seconds.
\<close>

definition compareFiles_try :: "timer \<times> timer \<Rightarrow> node \<Rightarrow> path \<Rightarrow> path \<Rightarrow> error + bool" where
  "compareFiles_try timers fs file1Path file2Path =
     (if \<not> existsSync fs file1Path
      then Inl (Error (''First file not found: '' @ path_string file1Path))
      else if \<not> existsSync fs file2Path
      then Inl (Error (''Second file not found: '' @ path_string file2Path))
      else
        (case stat fs file1Path of
           Inl e \<Rightarrow> Inl e
         | Inr stats1 \<Rightarrow>
             (case stat fs file2Path of
                Inl e \<Rightarrow> Inl e
              | Inr stats2 \<Rightarrow>
                  if stat_size stats1 \<noteq> stat_size stats2 then Inr True
                  else
                    (let timeoutError =
                           Error (''File comparison timed out after ''
                                  @ nat_text (nat (timeoutMs div 1000)) @ '' seconds'') in
                     case race (fst timers) timeoutError (readFile_utf8 fs file1Path) of
                       Inl e \<Rightarrow> Inl e
                     | Inr content1 \<Rightarrow>
                         (case race (snd timers) timeoutError (readFile_utf8 fs file2Path) of
                            Inl e \<Rightarrow> Inl e
                          | Inr content2 \<Rightarrow> Inr (content1 \<noteq> content2))))))"

definition compareFiles :: "timer \<times> timer \<Rightarrow> node \<Rightarrow> path \<Rightarrow> path \<Rightarrow> error + bool" where
  "compareFiles timers fs file1Path file2Path =
     (case compareFiles_try timers fs file1Path file2Path of
        Inl e \<Rightarrow> Inr True
      | Inr isDifferent \<Rightarrow> Inr isDifferent)"


text \<open>
  \<open>getOriginalFilePath(backupPath)\<close>: the field \<open>originalFile\<close> of the metadata file,
  if there is an entry at the path of the backup followed by \<open>.meta.json\<close>; else the path
  inferred from the place of the backup below the backup directory
  (\<open>{authId}/{source}/{relative directory}\<close>) and its name without the last two dotted
  parts.  \<open>None\<close> is \<open>null\<close> or \<open>undefined\<close>; every error is caught and answered by
  \<open>null\<close>.
\<close>

definition inferredOriginalPath :: "BackupManager \<Rightarrow> host \<Rightarrow> path \<Rightarrow> json option" where
  "inferredOriginalPath m h backupPath =
     (let backupDir = dirname backupPath;
          parts = split_at CHR ''.'' (basename backupPath);
          fileName = join_with ''.'' (take (length parts - 2) parts) in
      case workspaceFolders h of
        [] \<Rightarrow> None
      | workspaceRoot # others \<Rightarrow>
          (let rel = path_relative (baseBackupDir m) backupDir;
               relativeDirParts = (if rel = [] then [[]] else rel);
               relativeDirParts' =
                 (if length relativeDirParts \<ge> 2 then drop 2 relativeDirParts
                  else relativeDirParts) in
           Some (JStr (path_string (path_join workspaceRoot (relativeDirParts' @ [fileName]))))))"

definition getOriginalFilePath :: "BackupManager \<Rightarrow> host \<Rightarrow> node \<Rightarrow> path \<Rightarrow> json option" where
  "getOriginalFilePath m h fs backupPath =
     (let metadataPath = add_suffix backupPath ''.meta.json'' in
      if existsSync fs metadataPath then
        (case readFile_utf8 fs metadataPath of
           Inl e \<Rightarrow> None
         | Inr txt \<Rightarrow>
             (case JSON_parse h txt of
                None \<Rightarrow> None
              | Some meta \<Rightarrow>
                  (case get_prop meta ''originalFile'' of Inl e \<Rightarrow> None | Inr v \<Rightarrow> v)))
      else inferredOriginalPath m h backupPath)"

text \<open>
  One version in the result of \<open>listBackups\<close>.  A \<open>Date\<close> is kept as what it was made
  from: a value of the metadata, a text, or the modification time of a file.
\<close>

datatype date = DateOf "json option" | DateOfText string | MTimeOf path

record version =
  v_path :: path
  v_timestamp :: date
  v_source :: source
  v_authId :: json
  v_accountInfo :: AccountInfo




text \<open>The time in the name of a backup: every \<open>-\<close> at offset 13 or 16 becomes \<open>:\<close>, one at
  offset 10 becomes \<open>.\<close>.\<close>

definition restore_time_text :: "string \<Rightarrow> string" where
  "restore_time_text s =
     map (\<lambda>(offset, c).
            if c = CHR ''-'' then
              (if offset = 13 \<or> offset = 16 then CHR '':''
               else if offset = 10 then CHR ''.'' else c)
            else c)
         (zip [0 ..< length s] s)"

text \<open>
  What \<open>findBackupFiles\<close> records for one backup file whose original path is known: the
  timestamp, authentication ID and account descriptor of the metadata file if there is
  one, else the time in the file name.  If that fails, the modification time of the
  backup file is taken.
\<close>

definition backupVersion :: "host \<Rightarrow> node \<Rightarrow> path \<Rightarrow> string \<Rightarrow> source \<Rightarrow> version" where
  "backupVersion h fs entryPath entryName src =
     (let empty = \<lparr>acc_name = JStr [], acc_id = JStr [], acc_url = JStr []\<rparr>;
          fallback = \<lparr>v_path = entryPath, v_timestamp = MTimeOf entryPath, v_source = src,
                      v_authId = JStr [], v_accountInfo = empty\<rparr>;
          metaPath = add_suffix entryPath ''.meta.json'' in
      if existsSync fs metaPath then
        (case readFile_utf8 fs metaPath of
           Inl e \<Rightarrow> fallback
         | Inr txt \<Rightarrow>
             (case JSON_parse h txt of
                None \<Rightarrow> fallback
              | Some meta \<Rightarrow>
                  (case (get_prop meta ''timestamp'', get_prop meta ''authId'',
                         get_prop meta ''accountInfo'') of
                     (Inr t, Inr a, Inr ai) \<Rightarrow>
                       \<lparr>v_path = entryPath, v_timestamp = DateOf t, v_source = src,
                        v_authId = or_empty a,
                        v_accountInfo =
                          (if truthy ai then
                             (case (get_prop (the ai) ''name'', get_prop (the ai) ''id'',
                                    get_prop (the ai) ''url'') of
                                (Inr n, Inr i, Inr u) \<Rightarrow>
                                  \<lparr>acc_name = or_empty n, acc_id = or_empty i,
                                   acc_url = or_empty u\<rparr>
                              | _ \<Rightarrow> empty)
                           else empty)\<rparr>
                   | _ \<Rightarrow> fallback)))
      else
        (let parts = split_at CHR ''.'' entryName in
         if length parts \<ge> 2 then
           \<lparr>v_path = entryPath,
            v_timestamp = DateOfText (restore_time_text (parts ! (length parts - 2))),
            v_source = src, v_authId = JStr [], v_accountInfo = empty\<rparr>
         else fallback))"










text \<open>
  A backup record on disk: the content file at a path and the metadata file at that path
  followed by \<open>.meta.json\<close> are both there.
\<close>

definition paired :: "node \<Rightarrow> path \<Rightarrow> bool" where
  "paired fs p = (content fs p \<noteq> None \<and> content fs (add_suffix p ''.meta.json'') \<noteq> None)"

section \<open>SuiteCloudManager (\<open>src/suiteCloudManager.ts\<close>)\<close>

text \<open>
  The external command-line tool is reached through \<open>exec\<close>, which resolves with the
  standard output and standard error of the command, or rejects with an error message
  (and the standard error, if any).  What the tool answers is a parameter of the model.
  Functions that may run commands return, with their result, the list of the commands
  they ran.
\<close>

datatype exec_result = Resolved string string | Rejected string "string option"

type_synonym exec = "string \<Rightarrow> exec_result"

text \<open>The field \<open>output\<close> of a \<open>CommandResult\<close> is \<open>output'\<close> here.\<close>

record CommandResult =
  success :: bool
  output' :: "string option"
  error :: "string option"

record SuiteCloudManager =
  authId :: "string option"
  projectRoot :: "path option"
  accountInfo :: "(string \<times> AccountInfo) list"

subsection \<open>Strings\<close>

definition starts_with :: "string \<Rightarrow> string \<Rightarrow> bool" where
  "starts_with s p = (take (length p) s = p)"

fun includes' :: "string \<Rightarrow> string \<Rightarrow> bool" where
  "includes' [] sub = (sub = [])"
| "includes' (c # cs) sub = (starts_with (c # cs) sub \<or> includes' cs sub)"

text \<open>\<open>s.split(sep)\<close> for a separator that is not empty: \<open>skip\<close> counts the characters
  of a separator still to be passed over, \<open>cur\<close> holds the current piece, reversed.\<close>

fun split_go :: "string \<Rightarrow> nat \<Rightarrow> string \<Rightarrow> string \<Rightarrow> string list" where
  "split_go sep skip cur [] = [rev cur]"
| "split_go sep skip cur (c # cs) =
     (if skip > 0 then split_go sep (skip - 1) cur cs
      else if starts_with (c # cs) sep then rev cur # split_go sep (length sep - 1) [] cs
      else split_go sep 0 (c # cur) cs)"

definition split_on :: "string \<Rightarrow> string \<Rightarrow> string list" where
  "split_on sep s = split_go sep 0 [] s"

subsection \<open>Uploading and importing, as in \<open>src/src/suiteCloudManager.ts\<close>\<close>

definition scriptPath_of :: "string \<Rightarrow> string" where
  "scriptPath_of part =
     (let scriptPath = (if starts_with part ''/'' then drop 1 part else part) in
      ''SuiteScripts'' @ (if scriptPath \<noteq> [] then ''/'' @ scriptPath else []))"

text \<open>\<open>convertToSuiteCloudPath\<close> works on the text of the path relative to the project
  root, with every backslash turned into \<open>/\<close>.\<close>

definition relativeText :: "path \<Rightarrow> path \<Rightarrow> string" where
  "relativeText root fsPath =
     map (\<lambda>c. if c = CHR 0x5C then CHR ''/'' else c) (join_with ''/'' (path_relative root fsPath))"

definition convertToSuiteCloudPath :: "SuiteCloudManager \<Rightarrow> path \<Rightarrow> string option" where
  "convertToSuiteCloudPath mgr fsPath =
     (case projectRoot mgr of
        None \<Rightarrow> None
      | Some root \<Rightarrow>
          (let relativePath = relativeText root fsPath in
           if includes' relativePath ''FileCabinet/SuiteScripts'' then
             (let parts = split_on ''FileCabinet/SuiteScripts'' relativePath in
              if length parts > 1 then Some (scriptPath_of (parts ! 1)) else None)
           else if includes' relativePath ''SuiteScripts'' then
             (let parts = split_on ''SuiteScripts'' relativePath in
              if length parts > 1 then Some (scriptPath_of (parts ! 1)) else None)
           else None))"

definition runCommand :: "SuiteCloudManager \<Rightarrow> exec \<Rightarrow> string \<Rightarrow> CommandResult \<times> string list" where
  "runCommand mgr ex command =
     (case projectRoot mgr of
        None \<Rightarrow>
          (\<lparr>success = False, output' = None, error = Some ''No project root directory found''\<rparr>, [])
      | Some root \<Rightarrow>
          (case ex command of
             Resolved stdout stderr \<Rightarrow>
               (\<lparr>success = True, output' = Some stdout, error = None\<rparr>, [command])
           | Rejected errorMsg stderr \<Rightarrow>
               (\<lparr>success = False, output' = stderr, error = Some errorMsg\<rparr>, [command])))"

definition quoted :: "string \<Rightarrow> string" where
  "quoted s = [CHR 0x22] @ s @ [CHR 0x22]"

definition uploadFile_try ::
  "SuiteCloudManager \<Rightarrow> exec \<Rightarrow> path \<Rightarrow> error + CommandResult \<times> string list" where
  "uploadFile_try mgr ex fsPath =
     (case convertToSuiteCloudPath mgr fsPath of
        None \<Rightarrow>
          Inr (\<lparr>success = False, output' = None,
                error = Some ''Invalid file path: Not a SuiteScripts file''\<rparr>, [])
      | Some filePath \<Rightarrow>
          if filePath = [] then
            Inr (\<lparr>success = False, output' = None,
                  error = Some ''Invalid file path: Not a SuiteScripts file''\<rparr>, [])
          else Inr (runCommand mgr ex (''suitecloud file:upload --paths '' @ quoted filePath)))"

definition uploadFile ::
  "SuiteCloudManager \<Rightarrow> exec \<Rightarrow> path \<Rightarrow> error + CommandResult \<times> string list" where
  "uploadFile mgr ex fsPath =
     (case uploadFile_try mgr ex fsPath of
        Inl e \<Rightarrow>
          Inr (\<lparr>success = False, output' = None,
                error = Some (''Upload error: '' @ message e)\<rparr>, [])
      | Inr r \<Rightarrow> Inr r)"

definition importFile_try ::
  "SuiteCloudManager \<Rightarrow> exec \<Rightarrow> path \<Rightarrow> error + CommandResult \<times> string list" where
  "importFile_try mgr ex fsPath =
     (case convertToSuiteCloudPath mgr fsPath of
        None \<Rightarrow>
          Inr (\<lparr>success = False, output' = None,
                error = Some ''Invalid file path: Not a SuiteScripts file''\<rparr>, [])
      | Some filePath \<Rightarrow>
          if filePath = [] then
            Inr (\<lparr>success = False, output' = None,
                  error = Some ''Invalid file path: Not a SuiteScripts file''\<rparr>, [])
          else Inr (runCommand mgr ex (''suitecloud file:import --paths '' @ quoted (''/'' @ filePath))))"

definition importFile ::
  "SuiteCloudManager \<Rightarrow> exec \<Rightarrow> path \<Rightarrow> error + CommandResult \<times> string list" where
  "importFile mgr ex fsPath =
     (case importFile_try mgr ex fsPath of
        Inl e \<Rightarrow>
          Inr (\<lparr>success = False, output' = None,
                error = Some (''Import error: '' @ message e)\<rparr>, [])
      | Inr r \<Rightarrow> Inr r)"

subsection \<open>Reading authentication IDs and accounts from the tool's output\<close>

text \<open>
  The regular expressions of this part are a fixed text followed by a group of one or more
  characters of a class: \<open>/ID: (\S+)/\<close>, \<open>/Account name: ([^\n]+)/\<close> and the like.
  \<open>match_after lit cls s\<close> is the group of the leftmost match in \<open>s\<close>, which is as long
  as it can be.  The output of the tool is taken to be ASCII text, so the white space of
  \<open>\s\<close> and of \<open>trim\<close> is the space and the characters 9 to 13.
\<close>

definition is_space :: "char \<Rightarrow> bool" where
  "is_space c = (c = CHR '' '' \<or> (9 \<le> (of_char c :: nat) \<and> (of_char c :: nat) \<le> 13))"

fun match_after :: "string \<Rightarrow> (char \<Rightarrow> bool) \<Rightarrow> string \<Rightarrow> string option" where
  "match_after lit cls [] = None"
| "match_after lit cls (c # cs) =
     (if starts_with (c # cs) lit \<and> takeWhile cls (drop (length lit) (c # cs)) \<noteq> []
      then Some (takeWhile cls (drop (length lit) (c # cs)))
      else match_after lit cls cs)"

definition match_ID :: "string \<Rightarrow> string option" where
  "match_ID s = match_after ''ID: '' (\<lambda>c. \<not> is_space c) s"

definition match_line :: "string \<Rightarrow> string \<Rightarrow> string option" where
  "match_line lit s = match_after lit (\<lambda>c. c \<noteq> CHR 0x0A) s"

definition trim :: "string \<Rightarrow> string" where
  "trim s = rev (dropWhile is_space (rev (dropWhile is_space s)))"

text \<open>\<open>exec(...).catch(() => ({ stdout: '', stderr: '' }))\<close>\<close>

definition stdout_or_empty :: "exec_result \<Rightarrow> string" where
  "stdout_or_empty r = (case r of Resolved out err \<Rightarrow> out | Rejected msg err \<Rightarrow> [])"

text \<open>
  The loop of \<open>fetchAccountInfo\<close> over the lines of
  \<open>suitecloud account:manageauth --list\<close>: a line that matches \<open>/ID: (\S+)/\<close> sets the
  current authentication ID; any other line, once there is a current ID, may give the
  name, id or URL of its account.
\<close>

fun accountLines ::
  "string list \<Rightarrow> string \<Rightarrow> (string \<times> AccountInfo) list \<Rightarrow> (string \<times> AccountInfo) list" where
  "accountLines [] currentAuthId infos = infos"
| "accountLines (line # lines) currentAuthId infos =
     (case match_ID line of
        Some a \<Rightarrow> accountLines lines a infos
      | None \<Rightarrow>
          if currentAuthId \<noteq> [] then
            (let accountNameMatch = match_line ''Account name: '' line;
                 accountIdMatch = match_line ''Account ID: '' line;
                 accountUrlMatch = match_line ''Account URL: '' line in
             if accountNameMatch \<noteq> None \<or> accountIdMatch \<noteq> None \<or> accountUrlMatch \<noteq> None
             then
               (let existingInfo =
                      (case map_of infos currentAuthId of
                         Some info \<Rightarrow> info
                       | None \<Rightarrow> \<lparr>acc_name = JStr [], acc_id = JStr [], acc_url = JStr []\<rparr>);
                    info1 = (case accountNameMatch of
                               Some n \<Rightarrow> existingInfo\<lparr>acc_name := JStr (trim n)\<rparr>
                             | None \<Rightarrow> existingInfo);
                    info2 = (case accountIdMatch of
                               Some i \<Rightarrow> info1\<lparr>acc_id := JStr (trim i)\<rparr>
                             | None \<Rightarrow> info1);
                    info3 = (case accountUrlMatch of
                               Some u \<Rightarrow> info2\<lparr>acc_url := JStr (trim u)\<rparr>
                             | None \<Rightarrow> info2) in
                accountLines lines currentAuthId (AList.update currentAuthId info3 infos))
             else accountLines lines currentAuthId infos)
          else accountLines lines currentAuthId infos)"

text \<open>
  \<open>fetchAccountInfo\<close>.  Its first part matches the output of
  \<open>suitecloud account:setup --list\<close> against a regular expression that is built at run
  time from the authentication ID; the match of that expression is the parameter
  \<open>accountMatch\<close> (it may throw, when the ID does not give a regular expression).
  Any error ends the function (it is caught and logged).
\<close>

definition fetchAccountInfo ::
  "(string \<Rightarrow> string \<Rightarrow> error + (string \<times> string) option) \<Rightarrow> exec \<Rightarrow>
   SuiteCloudManager \<Rightarrow> SuiteCloudManager" where
  "fetchAccountInfo accountMatch ex mgr =
     (let step1 =
            (case authId mgr of
               None \<Rightarrow> Inr (accountInfo mgr)
             | Some a \<Rightarrow>
                 if a = [] then Inr (accountInfo mgr)
                 else
                   (let out = stdout_or_empty (ex ''suitecloud account:setup --list'') in
                    if out \<noteq> [] then
                      (case accountMatch a out of
                         Inl e \<Rightarrow> Inl e
                       | Inr None \<Rightarrow> Inr (accountInfo mgr)
                       | Inr (Some (g1, g2)) \<Rightarrow>
                           if g1 \<noteq> [] then
                             Inr (AList.update a
                                    \<lparr>acc_name = JStr (trim g1),
                                     acc_id = JStr (if g2 \<noteq> [] then trim g2 else []),
                                     acc_url = JStr []\<rparr>
                                    (accountInfo mgr))
                           else Inr (accountInfo mgr))
                    else Inr (accountInfo mgr))) in
      case step1 of
        Inl e \<Rightarrow> mgr
      | Inr infos \<Rightarrow>
          (let out = stdout_or_empty (ex ''suitecloud account:manageauth --list'') in
           if out \<noteq> [] then
             mgr\<lparr>accountInfo := accountLines (split_at (CHR 0x0A) out) [] infos\<rparr>
           else mgr\<lparr>accountInfo := infos\<rparr>))"

text \<open>
  The part of \<open>initialize\<close> that follows the reading of \<open>project.json\<close> and of the
  settings: the account information is fetched; then, if there is still no
  authentication ID, it is the group of the first match of \<open>/ID: (\S+)/\<close> in the output
  of \<open>suitecloud account:manageauth --list\<close>, and the account information is fetched
  again.  (Of all the matches of \<open>/ID: (\S+)/g\<close> only the first is used; it is matched
  once more to get its group.)
\<close>

definition first_match_text :: "string \<Rightarrow> string option" where
  "first_match_text s = map_option (\<lambda>g. ''ID: '' @ g) (match_ID s)"

definition detectAuthId ::
  "(string \<Rightarrow> string \<Rightarrow> error + (string \<times> string) option) \<Rightarrow> exec \<Rightarrow>
   SuiteCloudManager \<Rightarrow> SuiteCloudManager" where
  "detectAuthId accountMatch ex mgr0 =
     (let mgr = fetchAccountInfo accountMatch ex mgr0 in
      if authId mgr = None \<or> authId mgr = Some [] then
        (case ex ''suitecloud account:manageauth --list'' of
           Rejected msg err \<Rightarrow> mgr
         | Resolved out err \<Rightarrow>
             if out \<noteq> [] then
               (case first_match_text out of
                  None \<Rightarrow> mgr
                | Some m0 \<Rightarrow>
                    (case match_ID m0 of
                       None \<Rightarrow> mgr
                     | Some g \<Rightarrow>
                         if g \<noteq> [] then fetchAccountInfo accountMatch ex (mgr\<lparr>authId := Some g\<rparr>)
                         else mgr))
             else mgr)
      else mgr)"

text \<open>The same step in the older \<open>src/src/suiteCloudManager.ts\<close>: the command is
  \<open>suitecloud account:manageauth\<close>, and its output is searched only if it says
  \<open>Account credentials were found\<close>.\<close>

definition detectAuthId_v1 :: "exec \<Rightarrow> SuiteCloudManager \<Rightarrow> SuiteCloudManager" where
  "detectAuthId_v1 ex mgr =
     (if authId mgr = None \<or> authId mgr = Some [] then
        (case ex ''suitecloud account:manageauth'' of
           Rejected msg err \<Rightarrow> mgr
         | Resolved out err \<Rightarrow>
             if out \<noteq> [] \<and> includes' out ''Account credentials were found'' then
               (case match_ID out of
                  None \<Rightarrow> mgr
                | Some g \<Rightarrow> if g \<noteq> [] then mgr\<lparr>authId := Some g\<rparr> else mgr)
             else mgr)
      else mgr)"

section \<open>The command \<open>suitecloudbackup.uploadFile\<close> (\<open>src/extension.ts\<close>)\<close>

text \<open>
  The model covers the function run under the progress indicator: from the local backup
  to the comparison, with its \<open>catch\<close>.  What lies outside the program in one run is
  collected in a \<open>session\<close>: the clock readings of the two backups, the results of
  \<open>suiteCloudManager.importFile\<close> and of the first and of the second call of
  \<open>suiteCloudManager.uploadFile\<close>, the bytes the import left in the file (if it wrote
  the file), the answer to the authentication prompt, whether the setup command and
  \<open>refreshAccountInfo\<close> went through, and the timers.  The external tool writes no
  other file.  Log lines, notifications and the diff view are left out.
\<close>

datatype response = RunAuth | ShowDocs | Dismissed

record session =
  clock_local :: "string \<times> string"
  clock_account :: "string \<times> string"
  importResult :: CommandResult
  importWrites :: "string option"
  uploadResult :: CommandResult
  retryResult :: CommandResult
  authResponse :: response
  setupOk :: bool
  refreshOk :: bool
  restoreTimers :: "timer \<times> timer"
  emergencyTimers :: "timer \<times> timer"
  compareTimers :: "timer \<times> timer"

text \<open>The calls of interest, in the order in which a run makes them.\<close>

datatype call = ImportFile | UploadFile | RestoreFile path

datatype outcome = Completed | Returned | Thrown error

text \<open>\<open>r.error?.includes(t)\<close> and \<open>r.error || dflt\<close>\<close>

definition error_includes :: "CommandResult \<Rightarrow> string \<Rightarrow> bool" where
  "error_includes r t = (case error r of None \<Rightarrow> False | Some e \<Rightarrow> includes' e t)"

definition error_or :: "CommandResult \<Rightarrow> string \<Rightarrow> string" where
  "error_or r dflt = (case error r of None \<Rightarrow> dflt | Some e \<Rightarrow> if e = [] then dflt else e)"

definition applyImport :: "session \<Rightarrow> path \<Rightarrow> node \<Rightarrow> node" where
  "applyImport s uri fs =
     (case importWrites s of
        None \<Rightarrow> fs
      | Some txt \<Rightarrow> (case writeFile fs uri txt of Inl e \<Rightarrow> fs | Inr fs' \<Rightarrow> fs'))"

text \<open>
  The authentication prompt, the same after a failed import and after a failed upload:
  if the user chooses to run the setup, and the setup command and
  \<open>refreshAccountInfo\<close> go through, the upload is tried (again); its result is only
  reported.  The flow then returns.
\<close>

definition authPrompt :: "session \<Rightarrow> call list" where
  "authPrompt s =
     (case authResponse s of
        RunAuth \<Rightarrow> if setupOk s \<and> refreshOk s then [UploadFile] else []
      | ShowDocs \<Rightarrow> []
      | Dismissed \<Rightarrow> [])"

text \<open>Steps 5 and 6: the upload and the comparison of the two backups.\<close>

definition uploadStep ::
  "session \<Rightarrow> path \<Rightarrow> path \<Rightarrow> call list \<Rightarrow> node \<Rightarrow> outcome \<times> call list \<times> node" where
  "uploadStep s backupPath accountBackupPath calls fs =
     (if \<not> success (uploadResult s) then
        (if error_includes (uploadResult s) ''authentication ID is not available''
            \<or> error_includes (uploadResult s) ''auth''
            \<or> error_includes (uploadResult s) ''credentials''
            \<or> error_includes (uploadResult s) ''token expired''
            \<or> error_includes (uploadResult s) ''token invalid''
            \<or> error_includes (uploadResult s) ''not authenticated''
         then (Returned, calls @ [UploadFile] @ authPrompt s, fs)
         else (Thrown (Error (error_or (uploadResult s) ''Unknown error'')),
               calls @ [UploadFile], fs))
      else
        (case stat fs accountBackupPath of
           Inl e \<Rightarrow> (Thrown e, calls @ [UploadFile], fs)
         | Inr accountStats \<Rightarrow>
             (case compareFiles (compareTimers s) fs backupPath accountBackupPath of
                Inl e \<Rightarrow> (Thrown e, calls @ [UploadFile], fs)
              | Inr hasDifferences \<Rightarrow> (Completed, calls @ [UploadFile], fs))))"

text \<open>
  The body of the \<open>try\<close>.  The second component is \<open>backupPath\<close>, set once the local
  backup was created.  A path returned by \<open>createBackup\<close> is never empty, so the tests
  \<open>!backupPath\<close> and \<open>!accountBackupPath\<close> cannot fail.
\<close>

definition uploadFlow_try ::
  "BackupManager \<Rightarrow> host \<Rightarrow> session \<Rightarrow> path \<Rightarrow> node \<Rightarrow> outcome \<times> path option \<times> call list \<times> node" where
  "uploadFlow_try m h s uri fs =
     (case createBackup m h (clock_local s) uri Local fs of
        (Inl e, fs1) \<Rightarrow> (Thrown e, None, [], fs1)
      | (Inr backupPath, fs1) \<Rightarrow>
          (let fs2 = applyImport s uri fs1 in
           if \<not> success (importResult s) then
             (if error_includes (importResult s) ''does not exist in NetSuite''
                 \<or> error_includes (importResult s) ''No files were found''
              then
                (if \<not> success (uploadResult s)
                 then (Thrown (Error (error_or (uploadResult s) ''Unknown error during upload'')),
                       Some backupPath, [ImportFile, UploadFile], fs2)
                 else (Returned, Some backupPath, [ImportFile, UploadFile], fs2))
              else if error_includes (importResult s) ''authentication''
                 \<or> error_includes (importResult s) ''auth''
                 \<or> error_includes (importResult s) ''credentials''
              then (Returned, Some backupPath, [ImportFile] @ authPrompt s, fs2)
              else (Thrown (Error (error_or (importResult s) ''Unknown error'')),
                    Some backupPath, [ImportFile], fs2))
           else
             (case createBackup m h (clock_account s) uri Account fs2 of
                (Inl e, fs3) \<Rightarrow> (Thrown e, Some backupPath, [ImportFile], fs3)
              | (Inr accountBackupPath, fs3) \<Rightarrow>
                  if \<not> existsSync fs3 backupPath
                  then (Thrown (Error (''Local backup file not found: '' @ path_string backupPath)),
                        Some backupPath, [ImportFile], fs3)
                  else
                    (case restoreFile (restoreTimers s) (Some uri) (Some backupPath) fs3 of
                       (Inl e, fs4) \<Rightarrow>
                         (Thrown e, Some backupPath, [ImportFile, RestoreFile backupPath], fs4)
                     | (Inr u, fs4) \<Rightarrow>
                         (case uploadStep s backupPath accountBackupPath
                                 [ImportFile, RestoreFile backupPath] fs4 of
                            (out, calls, fs5) \<Rightarrow> (out, Some backupPath, calls, fs5))))))"

text \<open>
  The \<open>catch\<close>: when \<open>backupPath\<close> is set, the emergency restore is attempted; whether it
  succeeds or not, the error is thrown again.
\<close>

definition uploadFlow ::
  "BackupManager \<Rightarrow> host \<Rightarrow> session \<Rightarrow> path \<Rightarrow> node \<Rightarrow> outcome \<times> call list \<times> node" where
  "uploadFlow m h s uri fs =
     (case uploadFlow_try m h s uri fs of
        (Thrown e, Some backupPath, calls, fs') \<Rightarrow>
          (case restoreFile (emergencyTimers s) (Some uri) (Some backupPath) fs' of
             (r, fs'') \<Rightarrow> (Thrown e, calls @ [RestoreFile backupPath], fs''))
      | (out, bp, calls, fs') \<Rightarrow> (out, calls, fs'))"

section \<open>Example data\<close>

text \<open>
  A workspace \<open>/ws\<close> with one file, backed up for the authentication ID \<open>prod\<close>.  The
  JSON functions of the example keep one field: a document is written as the text of its
  first field, and a text is read as a document whose \<open>originalFile\<close> is that text.
\<close>

abbreviation ex_manager :: BackupManager where
  "ex_manager \<equiv> \<lparr>baseBackupDir = [''ws'', ''backups''], suiteCloudManager = None\<rparr>"

abbreviation ex_host :: host where
  "ex_host \<equiv>
     \<lparr>workspaceFolders = [[''ws'']], cfg_defaultAuthId = Some ''prod'',
      JSON_parse =
        (\<lambda>t. if t = [] then None else Some (JObj [(''originalFile'', JStr (map char_of t))])),
      JSON_stringify =
        (\<lambda>j. case j of JObj ((k, JStr v) # kvs) \<Rightarrow> map of_char v | _ \<Rightarrow> [])\<rparr>"

abbreviation ex_clock :: "string \<times> string" where
  "ex_clock \<equiv> (''2024-01-02T03:04:05.678Z'', ''2024-01-02T03:04:05.679Z'')"

abbreviation ex_fs :: node where
  "ex_fs \<equiv> Dir [(''ws'', Dir [(''a.js'', File ''let x = 1;'')])]"

abbreviation ex_backupPath :: path where
  "ex_backupPath \<equiv>
     [''ws'', ''backups'', ''prod'', ''local'', ''a.js.2024-01-02T03-04-05-678Z.bak'']"

abbreviation ex_fs_backed_up :: node where
  "ex_fs_backed_up \<equiv>
     Dir [(''ws'', Dir [(''a.js'', File ''let x = 1;''),
        (''backups'', Dir [(''prod'', Dir [(''local'',
           Dir [(''a.js.2024-01-02T03-04-05-678Z.bak'', File ''let x = 1;''),
                (''a.js.2024-01-02T03-04-05-678Z.bak.meta.json'', File ''/ws/a.js'')])])])])]"




text \<open>
  The backed-up workspace after \<open>restoreFile\<close> was called with the metadata file of the
  backup as its target.
\<close>

abbreviation ex_fs_sidecar_overwritten :: node where
  "ex_fs_sidecar_overwritten \<equiv>
     Dir [(''ws'', Dir [(''a.js'', File ''let x = 1;''),
        (''backups'', Dir [(''prod'', Dir [(''local'',
           Dir [(''a.js.2024-01-02T03-04-05-678Z.bak'', File ''let x = 1;''),
                (''a.js.2024-01-02T03-04-05-678Z.bak.meta.json'', File ''let x = 1;'')])])])])]"

text \<open>
  Two files of one byte each, neither of them well-formed UTF-8: the bytes \<open>FF\<close> and
  \<open>FE\<close>.
\<close>

abbreviation ex_fs_two_bytes :: node where
  "ex_fs_two_bytes \<equiv>
     Dir [(''ws'', Dir [(''a.bin'', File [CHR 0xFF]), (''b.bin'', File [CHR 0xFE])])]"


text \<open>
  Three runs of the upload command on that workspace.  In the first the import succeeds
  and the upload fails for want of authentication; the user runs the setup.  In the
  second the import itself fails with an error that mentions authentication, after it
  wrote the file, and the user dismisses the prompt.  In the third the import fails with
  another error, after it wrote the file.
\<close>

abbreviation ex_session :: session where
  "ex_session \<equiv>
     \<lparr>clock_local = ex_clock,
      clock_account = (''2024-01-02T03:04:09.000Z'', ''2024-01-02T03:04:09.001Z''),
      importResult = \<lparr>success = True, output' = Some ''imported'', error = None\<rparr>,
      importWrites = Some ''let x = 0;'',
      uploadResult = \<lparr>success = False, output' = None, error = Some ''not authenticated''\<rparr>,
      retryResult = \<lparr>success = True, output' = Some ''uploaded'', error = None\<rparr>,
      authResponse = RunAuth, setupOk = True, refreshOk = True,
      restoreTimers = (InTime, InTime), emergencyTimers = (InTime, InTime),
      compareTimers = (InTime, InTime)\<rparr>"







section \<open>Facts about the file system\<close>


lemma content_Some_iff: "content fs p = Some c \<longleftrightarrow> lookup fs p = Some (File c)"
  by (simp add: content_def split: option.splits node.splits)

lemma content_None_iff:
  "content fs p = None \<longleftrightarrow> lookup fs p = None \<or> (\<exists>es. lookup fs p = Some (Dir es))"
  by (simp add: content_def split: option.splits node.splits)


lemma readFile_content: "readFile fs p = Inr c \<longleftrightarrow> content fs p = Some c"
  by (auto simp: readFile_def content_def split: option.splits node.splits)

lemma readFile_utf8_content:
  "readFile_utf8 fs p = Inr t \<longleftrightarrow> (\<exists>c. content fs p = Some c \<and> t = utf8_decode c)"
  by (auto simp: readFile_utf8_def readFile_content[symmetric] split: sum.splits)

lemma ascii_decode:
  "\<forall>b \<in> set c. (of_char b :: int) < 0x80 \<Longrightarrow> utf8_decode_from cp 0 lo hi c = map of_char c"
  by (induction c arbitrary: cp lo hi) (simp_all add: Let_def)

lemma ascii_valid_utf8:
  assumes "\<forall>b \<in> set c. (of_char b :: int) < 0x80"
  shows "valid_utf8 c"
proof -
  have nn: "0 \<le> (of_char a :: int)" for a
    by (metis of_nat_0_le_iff of_nat_of_char)
  have "utf8_encode (map of_char c) = c" using assms
    by (induction c) (simp_all add: utf8_encode_def utf8_encode_code_point_def nn)
  with ascii_decode[OF assms] show ?thesis by (simp add: valid_utf8_def utf8_decode_def)
qed

lemma of_char_char_of_int: "0 \<le> n \<Longrightarrow> n < 256 \<Longrightarrow> (of_char (char_of n) :: int) = n"
  by (simp add: of_char_of)

lemma decode_ascii_byte:
  assumes "of_char b = n" "n < 0x80"
  shows "utf8_decode_from cp 0 lo hi (b # bs) = n # utf8_decode_from 0 0 0x80 0xBF bs"
  using assms by (simp add: Let_def)

lemma decode_lead2:
  assumes "of_char b = n" "0xC2 \<le> n" "n \<le> 0xDF"
  shows "utf8_decode_from cp 0 lo hi (b # bs) = utf8_decode_from (n - 0xC0) 1 0x80 0xBF bs"
  using assms by (simp add: Let_def)

lemma decode_lead3:
  assumes "of_char b = n" "0xE0 \<le> n" "n \<le> 0xEF"
  shows "utf8_decode_from cp 0 lo hi (b # bs) =
           utf8_decode_from (n - 0xE0) 2
             (if n = 0xE0 then 0xA0 else 0x80) (if n = 0xED then 0x9F else 0xBF) bs"
  using assms by (simp add: Let_def)

lemma decode_lead4:
  assumes "of_char b = n" "0xF0 \<le> n" "n \<le> 0xF4"
  shows "utf8_decode_from cp 0 lo hi (b # bs) =
           utf8_decode_from (n - 0xF0) 3
             (if n = 0xF0 then 0x90 else 0x80) (if n = 0xF4 then 0x8F else 0xBF) bs"
  using assms by (simp add: Let_def)

lemma decode_last:
  assumes "of_char b = n" "lo \<le> n" "n \<le> hi"
  shows "utf8_decode_from cp 1 lo hi (b # bs)
           = (cp * 64 + (n - 0x80)) # utf8_decode_from 0 0 0x80 0xBF bs"
  using assms by (simp add: Let_def)

lemma decode_cont:
  assumes "of_char b = n" "lo \<le> n" "n \<le> hi" "needed = 2 \<or> needed = 3"
  shows "utf8_decode_from cp needed lo hi (b # bs)
           = utf8_decode_from (cp * 64 + (n - 0x80)) (needed - 1) 0x80 0xBF bs"
  using assms by (auto simp add: Let_def)

lemma div_mod_64:
  fixes c :: int
  obtains q r where "c = q * 64 + r" "0 \<le> r" "r < 64" "c div 64 = q" "c mod 64 = r"
proof (rule that[of "c div 64" "c mod 64"])
  show "c = c div 64 * 64 + c mod 64" by simp
  show "0 \<le> c mod 64" by simp
  show "c mod 64 < 64" by simp
qed simp_all

lemma div_4096: "(c::int) div 4096 = c div 64 div 64"
  using zdiv_zmult2_eq[of 64 c 64] by simp

lemma div_262144: "(c::int) div 262144 = c div 64 div 64 div 64"
  using zdiv_zmult2_eq[of 64 "c div 64" 64] zdiv_zmult2_eq[of 4096 c 64] by (simp add: div_4096)

lemma decode_two:
  assumes "0x80 \<le> c" "c < 0x800"
  shows "utf8_decode_from cp 0 lo hi
           (char_of (0xC0 + c div 64) # char_of (0x80 + c mod 64) # rest)
         = c # utf8_decode_from 0 0 0x80 0xBF rest"
proof -
  obtain q1 r1 where d1: "c = q1 * 64 + r1" "0 \<le> r1" "r1 < 64" "c div 64 = q1" "c mod 64 = r1"
    by (rule div_mod_64)
  define b1 where "b1 = 0xC0 + q1"
  define b2 where "b2 = 0x80 + r1"
  have r1: "0xC2 \<le> b1" "b1 \<le> 0xDF" using assms d1(1,2,3) unfolding b1_def by linarith+
  have r2: "0x80 \<le> b2" "b2 \<le> 0xBF" using d1(2,3) unfolding b2_def by linarith+
  have o1: "of_char (char_of b1) = b1" using r1 by (intro of_char_char_of_int) linarith+
  have o2: "of_char (char_of b2) = b2" using r2 by (intro of_char_char_of_int) linarith+
  have v: "(b1 - 0xC0) * 64 + (b2 - 0x80) = c" unfolding b1_def b2_def using d1(1) by simp
  show ?thesis
    unfolding d1(4,5) b1_def[symmetric] b2_def[symmetric]
    by (simp only: decode_lead2[OF o1 r1] decode_last[OF o2 r2] v)
qed

lemma decode_three:
  assumes "(0x800 \<le> c \<and> c < 0xD800) \<or> (0xE000 \<le> c \<and> c < 0x10000)"
  shows "utf8_decode_from cp 0 lo hi
           (char_of (0xE0 + c div 4096) # char_of (0x80 + (c div 64) mod 64)
              # char_of (0x80 + c mod 64) # rest)
         = c # utf8_decode_from 0 0 0x80 0xBF rest"
proof -
  obtain q1 r1 where d1: "c = q1 * 64 + r1" "0 \<le> r1" "r1 < 64" "c div 64 = q1" "c mod 64 = r1"
    by (rule div_mod_64)
  obtain q2 r2 where d2: "q1 = q2 * 64 + r2" "0 \<le> r2" "r2 < 64" "q1 div 64 = q2" "q1 mod 64 = r2"
    by (rule div_mod_64)
  have dv: "c div 4096 = q2" by (simp add: div_4096 d1(4) d2(4))
  define b1 where "b1 = 0xE0 + q2"
  define b2 where "b2 = 0x80 + r2"
  define b3 where "b3 = 0x80 + r1"
  have c: "c = (q2 * 64 + r2) * 64 + r1" using d1(1) d2(1) by simp
  then have c': "c = 4096 * q2 + 64 * r2 + r1" by (simp add: algebra_simps)
  have r1: "0xE0 \<le> b1" "b1 \<le> 0xEF"
    using assms c' d1(2,3) d2(2,3) unfolding b1_def by auto
  have r2a: "b1 = 0xE0 \<Longrightarrow> 0xA0 \<le> b2"
    using assms c' d1(2,3) d2(2,3) unfolding b1_def b2_def by auto
  have r2b: "b1 = 0xED \<Longrightarrow> b2 \<le> 0x9F"
    using assms c' d1(2,3) d2(2,3) unfolding b1_def b2_def by auto
  have r2': "0x80 \<le> b2" "b2 \<le> 0xBF" using d2(2,3) unfolding b2_def by linarith+
  have r2: "(if b1 = 0xE0 then 0xA0 else 0x80) \<le> b2" "b2 \<le> (if b1 = 0xED then 0x9F else 0xBF)"
    using r2a r2b r2' by auto
  have r3: "0x80 \<le> b3" "b3 \<le> 0xBF" using d1(2,3) unfolding b3_def by linarith+
  have o1: "of_char (char_of b1) = b1" using r1 by (intro of_char_char_of_int) linarith+
  have o2: "of_char (char_of b2) = b2" using r2' by (intro of_char_char_of_int) linarith+
  have o3: "of_char (char_of b3) = b3" using r3 by (intro of_char_char_of_int) linarith+
  have v: "((b1 - 0xE0) * 64 + (b2 - 0x80)) * 64 + (b3 - 0x80) = c"
    unfolding b1_def b2_def b3_def using c by simp
  have n: "(2::nat) - 1 = 1" by simp
  show ?thesis
    unfolding dv d1(4,5) d2(5) b1_def[symmetric] b2_def[symmetric] b3_def[symmetric]
    by (simp only: decode_lead3[OF o1 r1] decode_cont[OF o2 r2 disjI1[OF refl]] n
        decode_last[OF o3 r3] v)
qed

lemma decode_four:
  assumes "0x10000 \<le> c" "c < 0x110000"
  shows "utf8_decode_from cp 0 lo hi
           (char_of (0xF0 + c div 262144) # char_of (0x80 + (c div 4096) mod 64)
              # char_of (0x80 + (c div 64) mod 64) # char_of (0x80 + c mod 64) # rest)
         = c # utf8_decode_from 0 0 0x80 0xBF rest"
proof -
  obtain q1 r1 where d1: "c = q1 * 64 + r1" "0 \<le> r1" "r1 < 64" "c div 64 = q1" "c mod 64 = r1"
    by (rule div_mod_64)
  obtain q2 r2 where d2: "q1 = q2 * 64 + r2" "0 \<le> r2" "r2 < 64" "q1 div 64 = q2" "q1 mod 64 = r2"
    by (rule div_mod_64)
  obtain q3 r3 where d3: "q2 = q3 * 64 + r3" "0 \<le> r3" "r3 < 64" "q2 div 64 = q3" "q2 mod 64 = r3"
    by (rule div_mod_64)
  have dv2: "c div 4096 = q2" by (simp add: div_4096 d1(4) d2(4))
  have dv3: "c div 262144 = q3" by (simp add: div_262144 d1(4) d2(4) d3(4))
  define b1 where "b1 = 0xF0 + q3"
  define b2 where "b2 = 0x80 + r3"
  define b3 where "b3 = 0x80 + r2"
  define b4 where "b4 = 0x80 + r1"
  have c: "c = ((q3 * 64 + r3) * 64 + r2) * 64 + r1" using d1(1) d2(1) d3(1) by simp
  then have c': "c = 262144 * q3 + 4096 * r3 + 64 * r2 + r1" by (simp add: algebra_simps)
  have r1: "0xF0 \<le> b1" "b1 \<le> 0xF4"
    using assms c' d1(2,3) d2(2,3) d3(2,3) unfolding b1_def by auto
  have r2a: "b1 = 0xF0 \<Longrightarrow> 0x90 \<le> b2"
    using assms c' d1(2,3) d2(2,3) d3(2,3) unfolding b1_def b2_def by auto
  have r2b: "b1 = 0xF4 \<Longrightarrow> b2 \<le> 0x8F"
    using assms c' d1(2,3) d2(2,3) d3(2,3) unfolding b1_def b2_def by auto
  have r2': "0x80 \<le> b2" "b2 \<le> 0xBF" using d3(2,3) unfolding b2_def by linarith+
  have r2: "(if b1 = 0xF0 then 0x90 else 0x80) \<le> b2" "b2 \<le> (if b1 = 0xF4 then 0x8F else 0xBF)"
    using r2a r2b r2' by auto
  have r3: "0x80 \<le> b3" "b3 \<le> 0xBF" using d2(2,3) unfolding b3_def by linarith+
  have r4: "0x80 \<le> b4" "b4 \<le> 0xBF" using d1(2,3) unfolding b4_def by linarith+
  have o1: "of_char (char_of b1) = b1" using r1 by (intro of_char_char_of_int) linarith+
  have o2: "of_char (char_of b2) = b2" using r2' by (intro of_char_char_of_int) linarith+
  have o3: "of_char (char_of b3) = b3" using r3 by (intro of_char_char_of_int) linarith+
  have o4: "of_char (char_of b4) = b4" using r4 by (intro of_char_char_of_int) linarith+
  have v: "(((b1 - 0xF0) * 64 + (b2 - 0x80)) * 64 + (b3 - 0x80)) * 64 + (b4 - 0x80) = c"
    unfolding b1_def b2_def b3_def b4_def using c by simp
  have n: "(3::nat) - 1 = 2" "(2::nat) - 1 = 1" by simp_all
  show ?thesis
    unfolding dv2 dv3 d1(4,5) d2(5) d3(5)
      b1_def[symmetric] b2_def[symmetric] b3_def[symmetric] b4_def[symmetric]
    by (simp only: decode_lead4[OF o1 r1] decode_cont[OF o2 r2 disjI2[OF refl]] n
        decode_cont[OF o3 r3 disjI1[OF refl]] decode_last[OF o4 r4] v)
qed

lemma decode_replacement:
  "utf8_decode_from cp 0 lo hi (CHR 0xEF # CHR 0xBF # CHR 0xBD # rest)
     = 0xFFFD # utf8_decode_from 0 0 0x80 0xBF rest"
  by (simp add: Let_def)

lemma decode_one:
  "utf8_decode_from cp 0 lo hi (utf8_encode_code_point c @ rest)
     = scalar_or_replacement c # utf8_decode_from 0 0 0x80 0xBF rest"
proof -
  consider "0 \<le> c \<and> c < 0x80" | "0x80 \<le> c \<and> c < 0x800"
    | "(0x800 \<le> c \<and> c < 0xD800) \<or> (0xE000 \<le> c \<and> c < 0x10000)"
    | "0x10000 \<le> c \<and> c < 0x110000"
    | "c < 0 \<or> (0xD800 \<le> c \<and> c < 0xE000) \<or> 0x110000 \<le> c"
    by linarith
  then show ?thesis
  proof cases
    case 1
    then have e: "utf8_encode_code_point c = [char_of c]"
      and s: "scalar_or_replacement c = c"
      by (simp_all add: utf8_encode_code_point_def scalar_or_replacement_def)
    from 1 have o: "of_char (char_of c) = c" by (intro of_char_char_of_int) auto
    from 1 have "c < 0x80" by simp
    from decode_ascii_byte[OF o this] show ?thesis unfolding e s by simp
  next
    case 2
    then have e: "utf8_encode_code_point c = [char_of (0xC0 + c div 64), char_of (0x80 + c mod 64)]"
      and s: "scalar_or_replacement c = c"
      by (simp_all add: utf8_encode_code_point_def scalar_or_replacement_def)
    from 2 decode_two[of c cp lo hi rest] show ?thesis unfolding e s by simp
  next
    case 3
    then have e: "utf8_encode_code_point c =
        [char_of (0xE0 + c div 4096), char_of (0x80 + (c div 64) mod 64),
         char_of (0x80 + c mod 64)]"
      and s: "scalar_or_replacement c = c"
      by (auto simp add: utf8_encode_code_point_def scalar_or_replacement_def)
    from decode_three[OF 3, of cp lo hi rest] show ?thesis unfolding e s by simp
  next
    case 4
    then have e: "utf8_encode_code_point c =
        [char_of (0xF0 + c div 262144), char_of (0x80 + (c div 4096) mod 64),
         char_of (0x80 + (c div 64) mod 64), char_of (0x80 + c mod 64)]"
      and s: "scalar_or_replacement c = c"
      by (auto simp add: utf8_encode_code_point_def scalar_or_replacement_def)
    from 4 decode_four[of c cp lo hi rest] show ?thesis unfolding e s by simp
  next
    case 5
    then have e: "utf8_encode_code_point c = [CHR 0xEF, CHR 0xBF, CHR 0xBD]"
      and s: "scalar_or_replacement c = 0xFFFD"
      by (auto simp add: utf8_encode_code_point_def scalar_or_replacement_def)
    from decode_replacement[of cp lo hi rest] show ?thesis unfolding e s by simp
  qed
qed

lemma decode_encode: "utf8_decode (utf8_encode t) = map scalar_or_replacement t"
  by (induction t) (simp_all add: utf8_decode_def utf8_encode_def decode_one)

lemma encode_scalar_or_replacement:
  "utf8_encode_code_point (scalar_or_replacement c) = utf8_encode_code_point c"
proof -
  have "utf8_encode_code_point 0xFFFD = [CHR 0xEF, CHR 0xBF, CHR 0xBD]" by code_simp
  then show ?thesis
    by (auto simp add: scalar_or_replacement_def utf8_encode_code_point_def)
qed

lemma utf8_encode_valid: "valid_utf8 (utf8_encode t)"
proof -
  have "utf8_encode (map scalar_or_replacement t) = utf8_encode t"
    by (induction t) (simp_all add: utf8_encode_def encode_scalar_or_replacement)
  then show ?thesis by (simp add: valid_utf8_def decode_encode)
qed

lemma valid_utf8_iff: "valid_utf8 c \<longleftrightarrow> (\<exists>t. c = utf8_encode t)"
proof
  assume "valid_utf8 c"
  then have "c = utf8_encode (utf8_decode c)" by (simp add: valid_utf8_def)
  then show "\<exists>t. c = utf8_encode t" ..
next
  assume "\<exists>t. c = utf8_encode t"
  then show "valid_utf8 c" by (auto simp: utf8_encode_valid)
qed

lemma lookup_writeFile_same:
  "writeFile n p c = Inr n' \<Longrightarrow> lookup n' p = Some (File c)"
proof (induction n p c arbitrary: n' rule: writeFile.induct)
  case (4 es s p c)
  then show ?case
    by (auto simp: update_conv' split: option.splits if_splits sum.splits)
qed auto

lemma content_writeFile_same: "writeFile n p c = Inr n' \<Longrightarrow> content n' p = Some c"
  by (simp add: content_def lookup_writeFile_same)

lemma content_writeFile_other:
  "writeFile n p c = Inr n' \<Longrightarrow> q \<noteq> p \<Longrightarrow> content n' q = content n q"
proof (induction n p c arbitrary: n' q rule: writeFile.induct)
  case (1 old c)
  then show ?case by (cases q) (auto simp: content_def)
next
  case (4 es s p c)
  show ?case
  proof (cases q)
    case Nil
    with 4 show ?thesis
      by (auto simp: content_def split: option.splits if_splits sum.splits)
  next
    case (Cons t q')
    show ?thesis
    proof (cases "t = s")
      case False
      with 4 Cons show ?thesis
        by (auto simp: content_def update_conv' split: option.splits if_splits sum.splits)
    next
      case True
      show ?thesis
      proof (cases "map_of es s")
        case None
        with 4 Cons True show ?thesis
          by (cases q') (auto simp: content_def update_conv' split: option.splits if_splits)
      next
        case (Some ch)
        with 4(2) obtain ch' where w: "writeFile ch p c = Inr ch'"
          and n': "n' = Dir (AList.update s ch' es)"
          by (auto split: sum.splits)
        from 4(3) Cons True have "q' \<noteq> p" by simp
        from 4(1)[OF Some w this] have "content ch' q' = content ch q'" .
        with Cons True Some n' show ?thesis
          by (simp add: content_def update_conv')
      qed
    qed
  qed
qed auto


lemma content_mkdirSync:
  "mkdirSync n p = Inr n' \<Longrightarrow> content n' q = content n q"
proof (induction n p arbitrary: n' q rule: mkdirSync.induct)
  case (4 es s p)
  from 4(2) obtain ch' where
    m: "mkdirSync (case map_of es s of None \<Rightarrow> Dir [] | Some ch \<Rightarrow> ch) p = Inr ch'"
    and n': "n' = Dir (AList.update s ch' es)"
    by (auto split: sum.splits)
  show ?case
  proof (cases q)
    case Nil
    with n' show ?thesis by (simp add: content_def)
  next
    case (Cons t q')
    from 4(1)[OF m]
    have ih: "content ch' q' = content (case map_of es s of None \<Rightarrow> Dir [] | Some ch \<Rightarrow> ch) q'" .
    have e: "content (Dir []) q' = None" by (cases q') (auto simp: content_def)
    show ?thesis
      using Cons n' ih e
      by (cases "t = s"; cases "map_of es s") (auto simp: content_def update_conv')
  qed
qed auto

lemma content_ensureDirectoryExists:
  "ensureDirectoryExists fs p = Inr fs' \<Longrightarrow> content fs' q = content fs q"
  by (auto simp: ensureDirectoryExists_def content_mkdirSync split: if_splits sum.splits)


lemma add_suffix_neq: "sfx \<noteq> [] \<Longrightarrow> add_suffix p sfx \<noteq> p"
  by (cases p rule: rev_cases) (auto simp: add_suffix_def)

lemma path_string_add_suffix:
  "p \<noteq> [] \<Longrightarrow> path_string (add_suffix p sfx) = path_string p @ sfx"
  by (cases p rule: rev_cases) (auto simp: path_string_def add_suffix_def)

lemma backupPath_of_eq:
  "backupPath_of d rel isoText = d @ [backupFileName rel isoText]"
proof -
  let ?n = "basename rel @ ''.'' @ timestamp_text isoText @ ''.bak''"
  have "last ?n = CHR ''k''" by simp
  then have "?n \<noteq> ''..''" "?n \<noteq> ''.''" "?n \<noteq> []" by auto
  then show ?thesis
    by (simp add: backupPath_of_def backupFileName_def path_join_def join_step_def)
qed

section \<open>Creating and restoring a backup\<close>

lemma createBackup_success:
  assumes "createBackup m h clock fsPath src fs = (Inr bp, fs')"
  obtains aid fs1 c fs2 where
    "getAuthId h fs = Some (JStr aid)"
    "ensureDirectoryExists fs (backupDir_of m aid src (getRelativePath h fsPath)) = Inr fs1"
    "bp = backupPath_of (backupDir_of m aid src (getRelativePath h fsPath))
            (getRelativePath h fsPath) (fst clock)"
    "content fs1 fsPath = Some c"
    "writeFile fs1 bp (utf8_encode (utf8_decode c)) = Inr fs2"
    "writeFile fs2 (add_suffix bp ''.meta.json'')
       (utf8_encode (JSON_stringify h (metadata fsPath (snd clock) src aid
          (getRelativePath h fsPath) (backupAccountInfo m h fs1 aid)))) = Inr fs'"
proof -
  from assms have t: "createBackup_try m h clock fsPath src fs = (Inr bp, fs')"
    by (auto simp: createBackup_def split: prod.splits sum.splits)
  then obtain aid where a: "getAuthId h fs = Some (JStr aid)"
    by (auto simp: createBackup_try_def Let_def split: if_splits option.splits json.splits)
  let ?rel = "getRelativePath h fsPath"
  from t a obtain fs1 where
    e: "ensureDirectoryExists fs (backupDir_of m aid src ?rel) = Inr fs1"
    by (auto simp: createBackup_try_def Let_def split: if_splits sum.splits)
  from t a e obtain tx where rd: "readFile_utf8 fs1 fsPath = Inr tx"
    by (auto simp: createBackup_try_def Let_def split: if_splits sum.splits)
  then obtain c where c: "content fs1 fsPath = Some c" "tx = utf8_decode c"
    by (auto simp: readFile_utf8_content)
  from t a e rd show ?thesis
    unfolding c(2)
    by (auto simp: createBackup_try_def Let_def writeFile_utf8_def intro!: that[OF a e _ c(1)]
             split: if_splits sum.splits)
qed


text \<open>What \<open>restoreFile\<close> and \<open>createBackup\<close> can do to the file system, whatever they
  answer: create directories and write files, nothing else.\<close>

lemma restoreFile_cases:
  assumes "restoreFile timers tgt bp fs = (r, fs')"
  shows "fs' = fs
       \<or> (\<exists>target fs1. tgt = Some target
             \<and> ensureDirectoryExists fs (dirname target) = Inr fs1
             \<and> (fs' = fs1 \<or> (\<exists>x. writeFile fs1 target x = Inr fs')))"
proof (cases bp)
  case None
  with assms show ?thesis by (simp add: restoreFile_def)
next
  case bp: (Some backupPath)
  show ?thesis
  proof (cases tgt)
    case None
    with bp assms show ?thesis by (simp add: restoreFile_def)
  next
    case tg: (Some target)
    show ?thesis
    proof (cases "existsSync fs backupPath")
      case False
      with bp tg assms show ?thesis by (simp add: restoreFile_def)
    next
      case True
      show ?thesis
      proof (cases "stat fs backupPath")
        case (Inl e)
        with True bp tg assms show ?thesis by (simp add: restoreFile_def Let_def)
      next
        case st: (Inr stats)
        show ?thesis
        proof (cases "ensureDirectoryExists fs (dirname target)")
          case (Inl e)
          with True st bp tg assms show ?thesis by (simp add: restoreFile_def Let_def)
        next
          case en: (Inr fs1)
          show ?thesis
          proof (cases "copyFile fs1 backupPath target")
            case (Inr fs2)
            then obtain x where "writeFile fs1 target x = Inr fs2"
              by (auto simp: copyFile_def split: sum.splits)
            moreover from True st en Inr bp tg assms have "fs' = fs2"
              by (simp add: restoreFile_def Let_def)
            ultimately show ?thesis using tg en by blast
          next
            case cp: (Inl e)
            let ?tmo = "Error (''File restoration timed out after ''
                          @ nat_text (nat (timeoutMs div 1000)) @ '' seconds'')"
            show ?thesis
            proof (cases "race (fst timers) ?tmo (readBackup stats fs1 backupPath)")
              case (Inl e1)
              with True st en cp bp tg assms have "fs' = fs1"
                by (simp add: restoreFile_def Let_def)
              with tg en show ?thesis by blast
            next
              case rd: (Inr d)
              show ?thesis
              proof (cases "race (snd timers) ?tmo (writeFile fs1 target (data_bytes d))")
                case (Inl e2)
                with True st en cp rd bp tg assms have "fs' = fs1"
                  by (simp add: restoreFile_def Let_def)
                with tg en show ?thesis by blast
              next
                case wr: (Inr fs2)
                then have "writeFile fs1 target (data_bytes d) = Inr fs2"
                  by (cases "snd timers") (simp_all add: race_def)
                moreover from True st en cp rd wr bp tg assms have "fs' = fs2"
                  by (simp add: restoreFile_def Let_def split: if_splits)
                ultimately show ?thesis using tg en by blast
              qed
            qed
          qed
        qed
      qed
    qed
  qed
qed

lemma restoreFile_content_other:
  assumes "restoreFile timers (Some target) bp fs = (r, fs')" and "q \<noteq> target"
  shows "content fs' q = content fs q"
  using restoreFile_cases[OF assms(1)] assms(2)
  by (auto simp: content_ensureDirectoryExists content_writeFile_other)

lemma writeFile_keeps_files:
  assumes "writeFile n p c = Inr n'" "content n q \<noteq> None"
  shows "content n' q \<noteq> None"
  using content_writeFile_same[OF assms(1)] content_writeFile_other[OF assms(1), of q] assms(2)
  by (cases "q = p") auto

lemma restoreFile_keeps_files:
  assumes "restoreFile timers tgt bp fs = (r, fs')" "content fs q \<noteq> None"
  shows "content fs' q \<noteq> None"
proof -
  from restoreFile_cases[OF assms(1)] consider
      "fs' = fs"
    | fs1 d where "ensureDirectoryExists fs d = Inr fs1" "fs' = fs1"
    | fs1 d target x where "ensureDirectoryExists fs d = Inr fs1"
        "writeFile fs1 target x = Inr fs'"
    by blast
  then show ?thesis
  proof cases
    case 1
    with assms(2) show ?thesis by simp
  next
    case 2
    with assms(2) show ?thesis by (simp add: content_ensureDirectoryExists)
  next
    case 3
    from assms(2) have "content fs1 q \<noteq> None"
      by (simp add: content_ensureDirectoryExists[OF 3(1)])
    then show ?thesis by (rule writeFile_keeps_files[OF 3(2)])
  qed
qed

lemma createBackup_cases:
  assumes "createBackup m h clock uri src fs = (r, fs')"
  shows "fs' = fs
       \<or> (\<exists>aid fs1. getAuthId h fs = Some (JStr aid)
             \<and> ensureDirectoryExists fs (backupDir_of m aid src (getRelativePath h uri)) = Inr fs1
             \<and> (fs' = fs1
                \<or> (\<exists>x fs2.
                      writeFile fs1 (backupPath_of (backupDir_of m aid src (getRelativePath h uri))
                                       (getRelativePath h uri) (fst clock)) x = Inr fs2
                    \<and> (fs' = fs2
                       \<or> (\<exists>y. writeFile fs2
                                 (add_suffix (backupPath_of
                                    (backupDir_of m aid src (getRelativePath h uri))
                                    (getRelativePath h uri) (fst clock)) ''.meta.json'') y
                               = Inr fs')))))"
proof -
  obtain r0 where t: "createBackup_try m h clock uri src fs = (r0, fs')"
    using assms(1) by (auto simp: createBackup_def split: prod.splits sum.splits)
  show ?thesis
  proof (cases "\<exists>aid. getAuthId h fs = Some (JStr aid) \<and> aid \<noteq> []")
    case False
    then have "fs' = fs" using t
      by (auto simp: createBackup_try_def Let_def split: option.splits json.splits if_splits)
    then show ?thesis by simp
  next
    case True
    then obtain aid where a: "getAuthId h fs = Some (JStr aid)" "aid \<noteq> []" by blast
    let ?rel = "getRelativePath h uri"
    let ?dir = "backupDir_of m aid src ?rel"
    let ?bp = "backupPath_of ?dir ?rel (fst clock)"
    let ?mp = "add_suffix ?bp ''.meta.json''"
    show ?thesis
    proof (cases "ensureDirectoryExists fs ?dir")
      case (Inl e)
      with a t have "fs' = fs" by (simp add: createBackup_try_def Let_def)
      then show ?thesis by simp
    next
      case e1: (Inr fsA)
      show ?thesis
      proof (cases "readFile_utf8 fsA uri")
        case (Inl e)
        with a t e1 have "fs' = fsA" by (simp add: createBackup_try_def Let_def)
        with a e1 show ?thesis by blast
      next
        case rd: (Inr tx)
        show ?thesis
        proof (cases "writeFile fsA ?bp (utf8_encode tx)")
          case (Inl e)
          with a t e1 rd have "fs' = fsA"
            by (simp add: createBackup_try_def Let_def writeFile_utf8_def)
          with a e1 show ?thesis by blast
        next
          case w1: (Inr fsB)
          let ?meta = "utf8_encode (JSON_stringify h (metadata uri (snd clock) src aid ?rel
                         (backupAccountInfo m h fsA aid)))"
          show ?thesis
          proof (cases "writeFile fsB ?mp ?meta")
            case (Inl e)
            with a t e1 rd w1 have "fs' = fsB"
              by (simp add: createBackup_try_def Let_def writeFile_utf8_def)
            with a e1 w1 show ?thesis by blast
          next
            case w2: (Inr fsC)
            with a t e1 rd w1 have "fs' = fsC"
              by (simp add: createBackup_try_def Let_def writeFile_utf8_def)
            with a e1 w1 w2 show ?thesis by blast
          qed
        qed
      qed
    qed
  qed
qed

lemma createBackup_keeps_files:
  assumes "createBackup m h clock uri src fs = (r, fs')" "content fs q \<noteq> None"
  shows "content fs' q \<noteq> None"
proof -
  from createBackup_cases[OF assms(1)] consider
      "fs' = fs"
    | fs1 d where "ensureDirectoryExists fs d = Inr fs1" "fs' = fs1"
    | fs1 d bp x where "ensureDirectoryExists fs d = Inr fs1" "writeFile fs1 bp x = Inr fs'"
    | fs1 d bp x fs2 mp y where "ensureDirectoryExists fs d = Inr fs1"
        "writeFile fs1 bp x = Inr fs2" "writeFile fs2 mp y = Inr fs'"
    by blast
  then show ?thesis
  proof cases
    case 1
    with assms(2) show ?thesis by simp
  next
    case 2
    with assms(2) show ?thesis by (simp add: content_ensureDirectoryExists)
  next
    case 3
    from assms(2) have "content fs1 q \<noteq> None"
      by (simp add: content_ensureDirectoryExists[OF 3(1)])
    then show ?thesis by (rule writeFile_keeps_files[OF 3(2)])
  next
    case 4
    from assms(2) have "content fs1 q \<noteq> None"
      by (simp add: content_ensureDirectoryExists[OF 4(1)])
    then have "content fs2 q \<noteq> None" by (rule writeFile_keeps_files[OF 4(2)])
    then show ?thesis by (rule writeFile_keeps_files[OF 4(3)])
  qed
qed




lemma ex_createBackup:
  "createBackup ex_manager ex_host ex_clock [''ws'', ''a.js''] Local ex_fs
     = (Inr ex_backupPath, ex_fs_backed_up)"
  by code_simp


lemma projectAccountInfo_content:
  assumes "\<And>p. content fs' p = content fs p"
  shows "projectAccountInfo h fs' aid a = projectAccountInfo h fs aid a"
proof -
  have r: "readFile_utf8 fs' p = readFile_utf8 fs p
        \<or> (\<exists>e e'. readFile_utf8 fs' p = Inl e \<and> readFile_utf8 fs p = Inl e')" for p
    using assms[of p]
    by (auto simp: readFile_utf8_def readFile_def content_def split: option.splits node.splits)
  have e: "\<not> existsSync fs p \<Longrightarrow> \<exists>e. readFile_utf8 fs p = Inl e" for fs p
    by (auto simp: existsSync_def readFile_utf8_def readFile_def)
  show ?thesis
  proof (cases "workspaceFolders h")
    case Nil
    then show ?thesis by (simp add: projectAccountInfo_def)
  next
    case (Cons root others)
    let ?p = "path_join root [''project.json'']"
    from r[of ?p] e[of fs ?p] e[of fs' ?p] Cons show ?thesis
      by (cases "existsSync fs ?p"; cases "existsSync fs' ?p")
         (auto simp: projectAccountInfo_def Let_def split: sum.splits)
  qed
qed

lemma backupAccountInfo_content:
  assumes "\<And>p. content fs' p = content fs p"
  shows "backupAccountInfo m h fs' aid = backupAccountInfo m h fs aid"
  using projectAccountInfo_content[OF assms]
  by (simp add: backupAccountInfo_def Let_def)




section \<open>The metadata file beside a backup\<close>

lemma get_prop_field: "j \<noteq> JNull \<Longrightarrow> get_prop j k = Inr (field j k)"
  by (cases j) (simp_all add: field_def)

lemma truthy_not_null: "truthy v \<Longrightarrow> the v \<noteq> JNull"
  by (cases v rule: truthy.cases) auto

lemma getOriginalFilePath_reads_sidecar:
  assumes "lookup fs (add_suffix p ''.meta.json'') = Some (File b)"
  shows "getOriginalFilePath m h fs p =
           (case JSON_parse h (utf8_decode b) of
              None \<Rightarrow> None
            | Some meta \<Rightarrow> field meta ''originalFile'')"
  using assms
  by (simp add: getOriginalFilePath_def existsSync_def readFile_utf8_def readFile_def field_def
           Let_def split: option.splits sum.splits)



lemma backupVersion_reads_sidecar:
  assumes "lookup fs (add_suffix p ''.meta.json'') = Some (File b)"
    and "JSON_parse h (utf8_decode b) = Some meta" and "meta \<noteq> JNull"
  shows "backupVersion h fs p name src =
     \<lparr>v_path = p, v_timestamp = DateOf (field meta ''timestamp''), v_source = src,
      v_authId = or_empty (field meta ''authId''),
      v_accountInfo =
        (if truthy (field meta ''accountInfo'')
         then \<lparr>acc_name = or_empty (field (the (field meta ''accountInfo'')) ''name''),
               acc_id = or_empty (field (the (field meta ''accountInfo'')) ''id''),
               acc_url = or_empty (field (the (field meta ''accountInfo'')) ''url'')\<rparr>
         else \<lparr>acc_name = JStr [], acc_id = JStr [], acc_url = JStr []\<rparr>)\<rparr>"
proof -
  have g: "get_prop meta k = Inr (field meta k)" for k
    by (rule get_prop_field[OF assms(3)])
  have g': "truthy (field meta ''accountInfo'') \<Longrightarrow>
      get_prop (the (field meta ''accountInfo'')) k
        = Inr (field (the (field meta ''accountInfo'')) k)" for k
    by (rule get_prop_field[OF truthy_not_null])
  show ?thesis
    using assms(1,2)
    by (simp add: backupVersion_def existsSync_def readFile_utf8_def readFile_def Let_def g g')
qed


lemma getOriginalFilePath_sidecar_only:
  assumes "lookup fs' (add_suffix p ''.meta.json'') = lookup fs (add_suffix p ''.meta.json'')"
  shows "getOriginalFilePath m h fs' p = getOriginalFilePath m h fs p"
  using assms
  by (simp add: getOriginalFilePath_def existsSync_def readFile_utf8_def readFile_def Let_def)

lemma backupVersion_sidecar_only:
  assumes "lookup fs' (add_suffix p ''.meta.json'') = lookup fs (add_suffix p ''.meta.json'')"
  shows "backupVersion h fs' p name src = backupVersion h fs p name src"
  using assms
  by (simp add: backupVersion_def existsSync_def readFile_utf8_def readFile_def Let_def)

text \<open>
  C5.  The metadata of a backup lives at the path of its content file followed by
  \<open>.meta.json\<close>.
  \<^item> \<open>createBackup\<close> establishes it: after a success the content file and the metadata
    file are both there, the text of the second path is the text of the first followed by
    \<open>.meta.json\<close>, and the second file holds the JSON text of the record.
  \<^item> \<open>getOriginalFilePath\<close> and \<open>findBackupFiles\<close> (in the version it records for a backup
    file) rely on it.  If there is a file at the path of the backup followed by
    \<open>.meta.json\<close>, they parse its text: the original path is the field \<open>originalFile\<close> of
    the document, the time of the version is made from its field \<open>timestamp\<close>, and the
    authentication ID is its field \<open>authId\<close>.  And they read nothing of the file system
    but the entry at that path.
  \<^item> \<open>createBackup\<close> and \<open>restoreFile\<close> preserve it, whatever their arguments and their
    answer: where a content file and its metadata file were both there before, both are
    there afterwards.
\<close>

theorem sidecar_naming:
  "(createBackup m h clock uri src fs = (Inr backupPath, fs') \<longrightarrow>
        paired fs' backupPath
      \<and> path_string (add_suffix backupPath ''.meta.json'')
          = path_string backupPath @ ''.meta.json''
      \<and> (\<exists>aid. content fs' (add_suffix backupPath ''.meta.json'')
            = Some (utf8_encode (JSON_stringify h
                (metadata uri (snd clock) src aid (getRelativePath h uri)
                   (backupAccountInfo m h fs aid))))))
   \<and> (lookup fsA (add_suffix p ''.meta.json'') = Some (File b) \<longrightarrow>
        getOriginalFilePath m h fsA p =
          (case JSON_parse h (utf8_decode b) of
             None \<Rightarrow> None
           | Some meta \<Rightarrow> field meta ''originalFile'')
      \<and> (\<forall>meta. JSON_parse h (utf8_decode b) = Some meta \<and> meta \<noteq> JNull \<longrightarrow>
            v_timestamp (backupVersion h fsA p name src') = DateOf (field meta ''timestamp'')
          \<and> v_authId (backupVersion h fsA p name src') = or_empty (field meta ''authId'')))
   \<and> (lookup fsA (add_suffix p ''.meta.json'') = lookup fsB (add_suffix p ''.meta.json'') \<longrightarrow>
        getOriginalFilePath m h fsA p = getOriginalFilePath m h fsB p
      \<and> backupVersion h fsA p name src' = backupVersion h fsB p name src')
   \<and> (createBackup m h clock' uri' src'' fsA = (r', fsC') \<and> paired fsA p \<longrightarrow> paired fsC' p)
   \<and> (restoreFile timers target backup fsA = (r, fsC) \<and> paired fsA p \<longrightarrow> paired fsC p)"
proof (intro conjI impI allI)
  assume cb: "createBackup m h clock uri src fs = (Inr backupPath, fs')"
  then obtain aid fsA c fsB where
    mk: "ensureDirectoryExists fs (backupDir_of m aid src (getRelativePath h uri)) = Inr fsA"
    and bp: "backupPath = backupPath_of (backupDir_of m aid src (getRelativePath h uri))
            (getRelativePath h uri) (fst clock)"
    and w1: "writeFile fsA backupPath (utf8_encode (utf8_decode c)) = Inr fsB"
    and w2: "writeFile fsB (add_suffix backupPath ''.meta.json'')
       (utf8_encode (JSON_stringify h (metadata uri (snd clock) src aid (getRelativePath h uri)
          (backupAccountInfo m h fsA aid)))) = Inr fs'"
    by (rule createBackup_success)
  have ne: "backupPath \<noteq> add_suffix backupPath ''.meta.json''"
    using add_suffix_neq[of "''.meta.json''" backupPath] by auto
  have acc: "backupAccountInfo m h fsA aid = backupAccountInfo m h fs aid"
    by (rule backupAccountInfo_content) (rule content_ensureDirectoryExists[OF mk])
  show "paired fs' backupPath"
    using content_writeFile_other[OF w2 ne] content_writeFile_same[OF w1]
      content_writeFile_same[OF w2]
    by (simp add: paired_def)
  show "\<exists>aid. content fs' (add_suffix backupPath ''.meta.json'')
            = Some (utf8_encode (JSON_stringify h
                (metadata uri (snd clock) src aid (getRelativePath h uri)
                   (backupAccountInfo m h fs aid))))"
    using content_writeFile_same[OF w2] acc by auto
  from bp have "backupPath \<noteq> []" by (simp add: backupPath_of_eq)
  then show "path_string (add_suffix backupPath ''.meta.json'')
          = path_string backupPath @ ''.meta.json''"
    by (rule path_string_add_suffix)
next
  assume l: "lookup fsA (add_suffix p ''.meta.json'') = Some (File b)"
  show "getOriginalFilePath m h fsA p =
          (case JSON_parse h (utf8_decode b) of
             None \<Rightarrow> None
           | Some meta \<Rightarrow> field meta ''originalFile'')"
    by (rule getOriginalFilePath_reads_sidecar[OF l])
  fix meta
  assume "JSON_parse h (utf8_decode b) = Some meta \<and> meta \<noteq> JNull"
  then have v: "backupVersion h fsA p name src' =
     \<lparr>v_path = p, v_timestamp = DateOf (field meta ''timestamp''), v_source = src',
      v_authId = or_empty (field meta ''authId''),
      v_accountInfo =
        (if truthy (field meta ''accountInfo'')
         then \<lparr>acc_name = or_empty (field (the (field meta ''accountInfo'')) ''name''),
               acc_id = or_empty (field (the (field meta ''accountInfo'')) ''id''),
               acc_url = or_empty (field (the (field meta ''accountInfo'')) ''url'')\<rparr>
         else \<lparr>acc_name = JStr [], acc_id = JStr [], acc_url = JStr []\<rparr>)\<rparr>"
    using backupVersion_reads_sidecar[OF l] by blast
  show "v_timestamp (backupVersion h fsA p name src') = DateOf (field meta ''timestamp'')"
    unfolding v by simp
  show "v_authId (backupVersion h fsA p name src') = or_empty (field meta ''authId'')"
    unfolding v by simp
next
  assume "lookup fsA (add_suffix p ''.meta.json'') = lookup fsB (add_suffix p ''.meta.json'')"
  then show "getOriginalFilePath m h fsA p = getOriginalFilePath m h fsB p"
    and "backupVersion h fsA p name src' = backupVersion h fsB p name src'"
    by (rule getOriginalFilePath_sidecar_only, rule backupVersion_sidecar_only)
next
  assume "createBackup m h clock' uri' src'' fsA = (r', fsC') \<and> paired fsA p"
  then show "paired fsC' p"
    by (auto simp: paired_def dest: createBackup_keeps_files)
next
  assume "restoreFile timers target backup fsA = (r, fsC) \<and> paired fsA p"
  then show "paired fsC p"
    by (auto simp: paired_def dest: restoreFile_keeps_files)
qed

theorem sidecar_naming_witness:
  "createBackup ex_manager ex_host ex_clock [''ws'', ''a.js''] Local ex_fs
     = (Inr ex_backupPath, ex_fs_backed_up)
   \<and> paired ex_fs_backed_up ex_backupPath
   \<and> path_string (add_suffix ex_backupPath ''.meta.json'')
        = path_string ex_backupPath @ ''.meta.json''
   \<and> lookup ex_fs_backed_up (add_suffix ex_backupPath ''.meta.json'')
        = Some (File ''/ws/a.js'')
   \<and> JSON_parse ex_host (utf8_decode ''/ws/a.js'')
        = Some (JObj [(''originalFile'', JStr ''/ws/a.js'')])
   \<and> getOriginalFilePath ex_manager ex_host ex_fs_backed_up ex_backupPath
        = Some (JStr ''/ws/a.js'')
   \<and> v_timestamp (backupVersion ex_host ex_fs_backed_up ex_backupPath
                     ''a.js.2024-01-02T03-04-05-678Z.bak'' Local)
        = DateOf None
   \<and> getOriginalFilePath ex_manager ex_host ex_fs_backed_up ex_backupPath
        = getOriginalFilePath ex_manager ex_host
            (Dir [(''ws'', Dir [(''backups'', Dir [(''prod'', Dir [(''local'',
               Dir [(''a.js.2024-01-02T03-04-05-678Z.bak.meta.json'', File ''/ws/a.js'')])])])])])
            ex_backupPath
   \<and> createBackup ex_manager ex_host ex_clock [''ws'', ''a.js''] Local ex_fs_backed_up
        = (Inr ex_backupPath, ex_fs_backed_up)
   \<and> restoreFile (InTime, InTime) (Some (add_suffix ex_backupPath ''.meta.json''))
        (Some ex_backupPath) ex_fs_backed_up
        = (Inr (), ex_fs_sidecar_overwritten)
   \<and> paired ex_fs_sidecar_overwritten ex_backupPath"
proof -
  let ?only = "Dir [(''ws'', Dir [(''backups'', Dir [(''prod'', Dir [(''local'',
             Dir [(''a.js.2024-01-02T03-04-05-678Z.bak.meta.json'', File ''/ws/a.js'')])])])])]"
  let ?meta = "JObj [(''originalFile'', JStr ''/ws/a.js'')]"
  have l: "lookup ex_fs_backed_up (add_suffix ex_backupPath ''.meta.json'')
             = Some (File ''/ws/a.js'')"
    by code_simp
  have l': "lookup ex_fs_backed_up (add_suffix ex_backupPath ''.meta.json'')
             = lookup ?only (add_suffix ex_backupPath ''.meta.json'')"
    by code_simp
  have j: "JSON_parse ex_host (utf8_decode ''/ws/a.js'') = Some ?meta"
    by code_simp
  have j': "JSON_parse ex_host (utf8_decode ''/ws/a.js'') = Some ?meta \<and> ?meta \<noteq> JNull"
    using j by simp
  have f1: "field ?meta ''originalFile'' = Some (JStr ''/ws/a.js'')" by code_simp
  have f2: "field ?meta ''timestamp'' = None" by code_simp
  have c2: "createBackup ex_manager ex_host ex_clock [''ws'', ''a.js''] Local ex_fs_backed_up
        = (Inr ex_backupPath, ex_fs_backed_up)"
    by code_simp
  have r: "restoreFile (InTime, InTime) (Some (add_suffix ex_backupPath ''.meta.json''))
        (Some ex_backupPath) ex_fs_backed_up = (Inr (), ex_fs_sidecar_overwritten)"
    by code_simp
  note s = sidecar_naming[where m = ex_manager and h = ex_host and clock = ex_clock
      and uri = "[''ws'', ''a.js'']" and src = Local and fs = ex_fs
      and backupPath = ex_backupPath and fs' = ex_fs_backed_up
      and fsA = ex_fs_backed_up and fsB = ?only and p = ex_backupPath and b = "''/ws/a.js''"
      and name = "''a.js.2024-01-02T03-04-05-678Z.bak''" and src' = Local
      and clock' = ex_clock and uri' = "[''ws'', ''a.js'']" and src'' = Local
      and r' = "Inr ex_backupPath" and fsC' = ex_fs_backed_up
      and timers = "(InTime, InTime)" and target = "Some (add_suffix ex_backupPath ''.meta.json'')"
      and backup = "Some ex_backupPath" and r = "Inr ()" and fsC = ex_fs_sidecar_overwritten]
  note s1 = s[THEN conjunct1]
  note s2 = s[THEN conjunct2, THEN conjunct1]
  note s3 = s[THEN conjunct2, THEN conjunct2, THEN conjunct1]
  note s4 = s[THEN conjunct2, THEN conjunct2, THEN conjunct2, THEN conjunct1]
  note s5 = s[THEN conjunct2, THEN conjunct2, THEN conjunct2, THEN conjunct2]
  note a = mp[OF s1 ex_createBackup]
  have p: "paired ex_fs_backed_up ex_backupPath" by (rule a[THEN conjunct1])
  have n: "path_string (add_suffix ex_backupPath ''.meta.json'')
        = path_string ex_backupPath @ ''.meta.json''"
    by (rule a[THEN conjunct2, THEN conjunct1])
  note b = mp[OF s2 l]
  have g: "getOriginalFilePath ex_manager ex_host ex_fs_backed_up ex_backupPath
        = Some (JStr ''/ws/a.js'')"
    using b[THEN conjunct1] by (simp only: j option.case f1)
  have t: "v_timestamp (backupVersion ex_host ex_fs_backed_up ex_backupPath
                     ''a.js.2024-01-02T03-04-05-678Z.bak'' Local) = DateOf None"
    using mp[OF spec[OF b[THEN conjunct2], of ?meta] j', THEN conjunct1] by (simp only: f2)
  have o: "getOriginalFilePath ex_manager ex_host ex_fs_backed_up ex_backupPath
        = getOriginalFilePath ex_manager ex_host ?only ex_backupPath"
    by (rule mp[OF s3 l', THEN conjunct1])
  have q: "paired ex_fs_sidecar_overwritten ex_backupPath"
    by (rule mp[OF s5 conjI[OF r p]])
  have q': "paired ex_fs_backed_up ex_backupPath"
    by (rule mp[OF s4 conjI[OF c2 p]])
  show ?thesis
    by (intro conjI ex_createBackup p n l j g t o c2 r q)
qed

section \<open>Comparing two files\<close>

lemma timeout_seconds: "nat_text (nat (timeoutMs div 1000)) = ''120''"
  by code_simp

lemma compareFiles_try_files:
  assumes "lookup fs file1Path = Some (File c1)" "lookup fs file2Path = Some (File c2)"
  shows "compareFiles_try timers fs file1Path file2Path =
           (if length c1 \<noteq> length c2 then Inr True
            else if fst timers = Expired \<or> snd timers = Expired
            then Inl (Error ''File comparison timed out after 120 seconds'')
            else Inr (utf8_decode c1 \<noteq> utf8_decode c2))"
  using assms
  by (cases "fst timers"; cases "snd timers")
     (simp_all add: compareFiles_try_def existsSync_def stat_def readFile_utf8_def readFile_def
        race_def Let_def timeout_seconds)

lemma compareFiles_try_unreadable:
  assumes "content fs file1Path = None \<or> content fs file2Path = None"
  shows "compareFiles_try timers fs file1Path file2Path = Inr True
       \<or> (\<exists>e. compareFiles_try timers fs file1Path file2Path = Inl e)"
proof (cases "lookup fs file1Path")
  case None
  then show ?thesis by (simp add: compareFiles_try_def existsSync_def)
next
  case s1: (Some n1)
  show ?thesis
  proof (cases "lookup fs file2Path")
    case None
    with s1 show ?thesis by (simp add: compareFiles_try_def existsSync_def)
  next
    case s2: (Some n2)
    from assms s1 s2 have "is_Dir n1 \<or> is_Dir n2"
      by (cases n1; cases n2) (auto simp: content_def)
    with s1 s2 show ?thesis
      by (cases n1; cases n2; cases "fst timers"; cases "snd timers")
         (auto simp: compareFiles_try_def existsSync_def stat_def readFile_utf8_def readFile_def
            race_def Let_def)
  qed
qed

lemma valid_utf8_decode_inj:
  assumes "valid_utf8 c1" "valid_utf8 c2"
  shows "utf8_decode c1 = utf8_decode c2 \<longleftrightarrow> c1 = c2"
  using assms by (metis valid_utf8_def)

text \<open>
  C9, as the claim states it, fails for files that are not well-formed UTF-8: the files
  with the one byte \<open>FF\<close> and the one byte \<open>FE\<close> have the same size and both read as the
  text U+FFFD, so \<open>compareFiles\<close> answers \<open>false\<close> although their contents differ.
\<close>

theorem compare_equal_texts_counterexample:
  "content ex_fs_two_bytes [''ws'', ''a.bin''] = Some [CHR 0xFF]
   \<and> content ex_fs_two_bytes [''ws'', ''b.bin''] = Some [CHR 0xFE]
   \<and> compareFiles (InTime, InTime) ex_fs_two_bytes [''ws'', ''a.bin''] [''ws'', ''b.bin'']
        = Inr False"
  by code_simp

text \<open>
  C9, amended.  \<open>compareFiles\<close> never rejects: it always answers a boolean.  When both
  paths hold files, it answers \<open>true\<close> if their sizes in bytes differ, whatever the timers
  do (the files are not read); and if no timer expires, it answers whether the sizes
  differ or the texts differ that the bytes decode to as UTF-8.  For two files that are
  well-formed UTF-8 that is whether their contents differ.  When a file is missing or
  cannot be read, or a timer expires, it answers \<open>true\<close>.
\<close>

theorem compareFiles_answers:
  "(\<exists>b. compareFiles timers fs file1Path file2Path = Inr b)
   \<and> (\<forall>c1 c2. content fs file1Path = Some c1 \<and> content fs file2Path = Some c2 \<longrightarrow>
         (length c1 \<noteq> length c2 \<longrightarrow> compareFiles timers fs file1Path file2Path = Inr True)
       \<and> (timers = (InTime, InTime) \<longrightarrow>
            compareFiles timers fs file1Path file2Path
              = Inr (length c1 \<noteq> length c2 \<or> utf8_decode c1 \<noteq> utf8_decode c2))
       \<and> (timers = (InTime, InTime) \<and> valid_utf8 c1 \<and> valid_utf8 c2 \<longrightarrow>
            compareFiles timers fs file1Path file2Path = Inr (c1 \<noteq> c2)))
   \<and> (content fs file1Path = None \<or> content fs file2Path = None
        \<or> fst timers = Expired \<or> snd timers = Expired
       \<longrightarrow> compareFiles timers fs file1Path file2Path = Inr True)"
proof (intro conjI allI impI)
  show "\<exists>b. compareFiles timers fs file1Path file2Path = Inr b"
    by (cases "compareFiles_try timers fs file1Path file2Path") (auto simp: compareFiles_def)
next
  fix c1 c2
  assume "content fs file1Path = Some c1 \<and> content fs file2Path = Some c2"
    "length c1 \<noteq> length c2"
  then show "compareFiles timers fs file1Path file2Path = Inr True"
    by (simp add: compareFiles_def compareFiles_try_files content_Some_iff)
next
  fix c1 c2
  assume "content fs file1Path = Some c1 \<and> content fs file2Path = Some c2"
    "timers = (InTime, InTime)"
  then show "compareFiles timers fs file1Path file2Path
              = Inr (length c1 \<noteq> length c2 \<or> utf8_decode c1 \<noteq> utf8_decode c2)"
    by (auto simp: compareFiles_def compareFiles_try_files content_Some_iff)
next
  fix c1 c2
  assume c: "content fs file1Path = Some c1 \<and> content fs file2Path = Some c2"
    and t: "timers = (InTime, InTime) \<and> valid_utf8 c1 \<and> valid_utf8 c2"
  then have "utf8_decode c1 = utf8_decode c2 \<longleftrightarrow> c1 = c2"
    by (simp add: valid_utf8_decode_inj)
  moreover have "c1 = c2 \<Longrightarrow> length c1 = length c2" by simp
  ultimately show "compareFiles timers fs file1Path file2Path = Inr (c1 \<noteq> c2)"
    using c t by (auto simp: compareFiles_def compareFiles_try_files content_Some_iff)
next
  assume a: "content fs file1Path = None \<or> content fs file2Path = None
        \<or> fst timers = Expired \<or> snd timers = Expired"
  show "compareFiles timers fs file1Path file2Path = Inr True"
  proof (cases "content fs file1Path = None \<or> content fs file2Path = None")
    case True
    from compareFiles_try_unreadable[OF this, of timers] show ?thesis
      by (auto simp: compareFiles_def)
  next
    case False
    then obtain c1 c2 where
      "lookup fs file1Path = Some (File c1)" "lookup fs file2Path = Some (File c2)"
      by (auto simp: content_Some_iff[symmetric])
    with a False show ?thesis
      by (auto simp: compareFiles_def compareFiles_try_files)
  qed
qed

theorem compareFiles_answers_witness:
  "content ex_fs_backed_up ex_backupPath = Some ''let x = 1;''
   \<and> content ex_fs_backed_up [''ws'', ''a.js''] = Some ''let x = 1;''
   \<and> valid_utf8 ''let x = 1;''
   \<and> compareFiles (InTime, InTime) ex_fs_backed_up ex_backupPath [''ws'', ''a.js''] = Inr False
   \<and> content ex_fs_two_bytes [''ws'', ''a.bin''] = Some [CHR 0xFF]
   \<and> content ex_fs_two_bytes [''ws'', ''b.bin''] = Some [CHR 0xFE]
   \<and> utf8_decode [CHR 0xFF] = utf8_decode [CHR 0xFE]
   \<and> compareFiles (InTime, InTime) ex_fs_two_bytes [''ws'', ''a.bin''] [''ws'', ''b.bin'']
        = Inr False
   \<and> content ex_fs_backed_up [''ws'', ''b.js''] = None
   \<and> compareFiles (InTime, InTime) ex_fs_backed_up ex_backupPath [''ws'', ''b.js''] = Inr True"
proof -
  have c1: "content ex_fs_backed_up ex_backupPath = Some ''let x = 1;''" by code_simp
  have c2: "content ex_fs_backed_up [''ws'', ''a.js''] = Some ''let x = 1;''" by code_simp
  have c3: "content ex_fs_backed_up [''ws'', ''b.js''] = None" by code_simp
  have v: "valid_utf8 ''let x = 1;''" by code_simp
  have b1: "content ex_fs_two_bytes [''ws'', ''a.bin''] = Some [CHR 0xFF]" by code_simp
  have b2: "content ex_fs_two_bytes [''ws'', ''b.bin''] = Some [CHR 0xFE]" by code_simp
  have u: "utf8_decode [CHR 0xFF] = utf8_decode [CHR 0xFE]" by code_simp
  from compareFiles_answers[of "(InTime, InTime)" ex_fs_backed_up ex_backupPath "[''ws'', ''a.js'']"]
    c1 c2 v
  have r1: "compareFiles (InTime, InTime) ex_fs_backed_up ex_backupPath [''ws'', ''a.js'']
      = Inr False"
    by simp
  from compareFiles_answers[of "(InTime, InTime)" ex_fs_two_bytes "[''ws'', ''a.bin'']"
      "[''ws'', ''b.bin'']"] b1 b2 u
  have r2: "compareFiles (InTime, InTime) ex_fs_two_bytes [''ws'', ''a.bin''] [''ws'', ''b.bin'']
      = Inr False"
    by simp
  from compareFiles_answers[of "(InTime, InTime)" ex_fs_backed_up ex_backupPath "[''ws'', ''b.js'']"]
    c3
  have r3: "compareFiles (InTime, InTime) ex_fs_backed_up ex_backupPath [''ws'', ''b.js'']
      = Inr True"
    by simp
  show ?thesis by (intro conjI c1 c2 v r1 b1 b2 u r2 c3 r3)
qed

section \<open>The timer of 120 seconds\<close>






section \<open>Uploading and importing\<close>

lemma starts_with_iff: "starts_with s p \<longleftrightarrow> (\<exists>post. s = p @ post)"
proof
  assume "starts_with s p"
  then have "s = p @ drop (length p) s"
    by (metis append_take_drop_id starts_with_def)
  then show "\<exists>post. s = p @ post" ..
next
  assume "\<exists>post. s = p @ post"
  then show "starts_with s p" by (auto simp: starts_with_def)
qed

lemma includes_iff: "includes' s sub \<longleftrightarrow> (\<exists>pre post. s = pre @ sub @ post)"
proof (induction s)
  case Nil
  then show ?case by auto
next
  case (Cons c cs)
  show ?case
  proof
    assume "includes' (c # cs) sub"
    then consider "starts_with (c # cs) sub" | "includes' cs sub" by auto
    then show "\<exists>pre post. c # cs = pre @ sub @ post"
    proof cases
      case 1
      then obtain post where "c # cs = sub @ post" by (auto simp: starts_with_iff)
      then have "c # cs = [] @ sub @ post" by simp
      then show ?thesis by blast
    next
      case 2
      with Cons obtain pre post where "cs = pre @ sub @ post" by blast
      then have "c # cs = (c # pre) @ sub @ post" by simp
      then show ?thesis by blast
    qed
  next
    assume "\<exists>pre post. c # cs = pre @ sub @ post"
    then obtain pre post where e: "c # cs = pre @ sub @ post" by blast
    show "includes' (c # cs) sub"
    proof (cases pre)
      case Nil
      with e have "starts_with (c # cs) sub" by (auto simp: starts_with_iff)
      then show ?thesis by simp
    next
      case (Cons d pre')
      with e have "cs = pre' @ sub @ post" by simp
      with Cons.IH show ?thesis by auto
    qed
  qed
qed

lemma includes_suffix_part: "includes' s (a @ b) \<Longrightarrow> includes' s b"
proof -
  assume "includes' s (a @ b)"
  then obtain pre post where "s = pre @ (a @ b) @ post" by (auto simp: includes_iff)
  then have "s = (pre @ a) @ b @ post" by simp
  then show ?thesis unfolding includes_iff by blast
qed

lemma convert_None:
  assumes "projectRoot mgr = None
        \<or> (\<exists>root. projectRoot mgr = Some root
              \<and> \<not> includes' (relativeText root fsPath) ''SuiteScripts'')"
  shows "convertToSuiteCloudPath mgr fsPath = None"
proof (cases "projectRoot mgr")
  case None
  then show ?thesis by (simp add: convertToSuiteCloudPath_def)
next
  case (Some root)
  with assms have n: "\<not> includes' (relativeText root fsPath) ''SuiteScripts''" by auto
  have "\<not> includes' (relativeText root fsPath) (''FileCabinet/'' @ ''SuiteScripts'')"
    using n includes_suffix_part by blast
  then have "\<not> includes' (relativeText root fsPath) ''FileCabinet/SuiteScripts''" by simp
  with n Some show ?thesis by (simp add: convertToSuiteCloudPath_def Let_def)
qed

text \<open>
  C10, as the claim states it, fails: a path with no segment \<open>SuiteScripts\<close> may still
  contain that text inside a segment, and then the command is run.
\<close>

theorem no_SuiteScripts_segment_counterexample:
  "\<not> (''SuiteScripts'' \<notin> set [''ws'', ''MySuiteScripts2'', ''a.js''] \<longrightarrow>
      uploadFile \<lparr>authId = None, projectRoot = Some [''ws''], accountInfo = []\<rparr>
        (Resolved ''ok'') [''ws'', ''MySuiteScripts2'', ''a.js'']
      = Inr (\<lparr>success = False, output' = None,
              error = Some ''Invalid file path: Not a SuiteScripts file''\<rparr>, []))"
  by code_simp

text \<open>
  C10, amended.  \<open>uploadFile\<close> and \<open>importFile\<close> never reject: they always return a
  \<open>CommandResult\<close>.  When there is no project root, or the text of the path relative to
  the project root (backslashes turned into \<open>/\<close>) does not contain \<open>SuiteScripts\<close>
  anywhere, \<open>convertToSuiteCloudPath\<close> returns \<open>null\<close> and both return \<open>success = false\<close>
  with the error \<open>Invalid file path: Not a SuiteScripts file\<close>, having run no command.
\<close>

theorem upload_import_never_reject:
  "(\<exists>r. uploadFile mgr ex fsPath = Inr r) \<and> (\<exists>r. importFile mgr ex fsPath = Inr r)
   \<and> (projectRoot mgr = None
        \<or> (\<exists>root. projectRoot mgr = Some root
              \<and> \<not> includes' (relativeText root fsPath) ''SuiteScripts'')
       \<longrightarrow> convertToSuiteCloudPath mgr fsPath = None
         \<and> uploadFile mgr ex fsPath =
             Inr (\<lparr>success = False, output' = None,
                   error = Some ''Invalid file path: Not a SuiteScripts file''\<rparr>, [])
         \<and> importFile mgr ex fsPath =
             Inr (\<lparr>success = False, output' = None,
                   error = Some ''Invalid file path: Not a SuiteScripts file''\<rparr>, []))"
proof (intro conjI impI)
  show "\<exists>r. uploadFile mgr ex fsPath = Inr r"
    by (cases "uploadFile_try mgr ex fsPath") (auto simp: uploadFile_def)
  show "\<exists>r. importFile mgr ex fsPath = Inr r"
    by (cases "importFile_try mgr ex fsPath") (auto simp: importFile_def)
next
  assume a: "projectRoot mgr = None
        \<or> (\<exists>root. projectRoot mgr = Some root
              \<and> \<not> includes' (relativeText root fsPath) ''SuiteScripts'')"
  show "convertToSuiteCloudPath mgr fsPath = None" by (rule convert_None[OF a])
  then show "uploadFile mgr ex fsPath =
             Inr (\<lparr>success = False, output' = None,
                   error = Some ''Invalid file path: Not a SuiteScripts file''\<rparr>, [])"
    by (simp add: uploadFile_def uploadFile_try_def)
  from convert_None[OF a] show "importFile mgr ex fsPath =
             Inr (\<lparr>success = False, output' = None,
                   error = Some ''Invalid file path: Not a SuiteScripts file''\<rparr>, [])"
    by (simp add: importFile_def importFile_try_def)
qed

theorem upload_import_never_reject_witness:
  "projectRoot \<lparr>authId = None, projectRoot = Some [''ws''], accountInfo = []\<rparr> = Some [''ws'']
   \<and> \<not> includes' (relativeText [''ws''] [''ws'', ''src'', ''a.js'']) ''SuiteScripts''
   \<and> uploadFile \<lparr>authId = None, projectRoot = Some [''ws''], accountInfo = []\<rparr>
        (Resolved ''ok'') [''ws'', ''src'', ''a.js'']
      = Inr (\<lparr>success = False, output' = None,
              error = Some ''Invalid file path: Not a SuiteScripts file''\<rparr>, [])
   \<and> importFile \<lparr>authId = None, projectRoot = Some [''ws''], accountInfo = []\<rparr>
        (Resolved ''ok'') [''ws'', ''src'', ''a.js'']
      = Inr (\<lparr>success = False, output' = None,
              error = Some ''Invalid file path: Not a SuiteScripts file''\<rparr>, [])"
proof -
  have n: "\<not> includes' (relativeText [''ws''] [''ws'', ''src'', ''a.js'']) ''SuiteScripts''"
    by code_simp
  from upload_import_never_reject[of "\<lparr>authId = None, projectRoot = Some [''ws''], accountInfo = []\<rparr>"
      "Resolved ''ok''" "[''ws'', ''src'', ''a.js'']"] n
  show ?thesis by simp
qed

section \<open>Authentication IDs and accounts in the tool's output\<close>

lemma match_after_group:
  "match_after lit cls s = Some g \<Longrightarrow> g \<noteq> [] \<and> (\<forall>c \<in> set g. cls c)"
proof (induction s)
  case Nil
  then show ?case by simp
next
  case (Cons c cs)
  then show ?case
    by (auto split: if_splits dest: set_takeWhileD)
qed

lemma match_after_at_start:
  assumes "lit \<noteq> []" "g \<noteq> []" "\<forall>c \<in> set g. cls c"
  shows "match_after lit cls (lit @ g) = Some g"
proof -
  from assms(1) obtain c cs where l: "lit = c # cs" by (cases lit) auto
  have t: "takeWhile cls g = g" using assms(3) by (simp add: takeWhile_eq_all_conv)
  have s: "starts_with (c # cs @ g) lit" by (simp add: l starts_with_def)
  have d: "drop (length lit) (c # cs @ g) = g" by (simp add: l)
  have "match_after lit cls (c # (cs @ g)) = Some g"
    using s by (simp add: d t assms(2))
  with l show ?thesis by simp
qed

lemma fetchAccountInfo_authId: "authId (fetchAccountInfo am ex mgr) = authId mgr"
  by (simp add: fetchAccountInfo_def Let_def split: sum.splits)

text \<open>
  The first half of C8 holds for the newer \<open>initialize\<close>: without a configured
  authentication ID, the ID becomes the group of the first match of \<open>/ID: (\S+)/\<close> in the
  output of \<open>suitecloud account:manageauth --list\<close>.
\<close>

lemma detectAuthId_first_match:
  assumes "authId mgr = None"
    and "ex ''suitecloud account:manageauth --list'' = Resolved out err"
    and "match_ID out = Some g"
  shows "authId (detectAuthId am ex mgr) = Some g"
proof -
  from assms(3) have g: "g \<noteq> []" "\<forall>c \<in> set g. \<not> is_space c"
    using match_after_group[of "''ID: ''" "\<lambda>c. \<not> is_space c" out g] by (auto simp: match_ID_def)
  then have again: "match_ID (''ID: '' @ g) = Some g"
    unfolding match_ID_def by (intro match_after_at_start) auto
  from assms(3) have "out \<noteq> []" by (auto simp: match_ID_def)
  with assms again g show ?thesis
    by (simp add: detectAuthId_def Let_def fetchAccountInfo_authId first_match_text_def)
qed

text \<open>
  C8.  The account metadata is not extracted as the claim says: a line
  \<open>Account ID: 12345\<close> matches \<open>/ID: (\S+)/\<close> too, so it is taken for a new
  authentication ID.  The id of the account is never stored, and what follows (here the
  URL) is stored for \<open>12345\<close> instead of \<open>prod\<close>.
\<close>

theorem account_id_line_read_as_auth_id:
  "fetchAccountInfo am
     (\<lambda>command.
        Resolved (''ID: prod'' @ [CHR 0x0A] @ ''Account name: My Co'' @ [CHR 0x0A]
                  @ ''Account ID: 12345'' @ [CHR 0x0A] @ ''Account URL: https://x'') [])
     \<lparr>authId = None, projectRoot = Some [''ws''], accountInfo = []\<rparr>
   = \<lparr>authId = None, projectRoot = Some [''ws''],
      accountInfo =
        [(''prod'', \<lparr>acc_name = JStr ''My Co'', acc_id = JStr [], acc_url = JStr []\<rparr>),
         (''12345'', \<lparr>acc_name = JStr [], acc_id = JStr [], acc_url = JStr ''https://x''\<rparr>)]\<rparr>"
  by code_simp

section \<open>The upload command\<close>

lemma authPrompt_calls:
  "authPrompt s = []
   \<or> (authPrompt s = [UploadFile] \<and> authResponse s = RunAuth \<and> setupOk s \<and> refreshOk s)"
  by (cases "authResponse s") (auto simp: authPrompt_def)

lemma uploadStep_calls:
  assumes "uploadStep s bp abp calls fs = (out, calls', fs')"
  shows "fs' = fs
       \<and> (calls' = calls @ [UploadFile]
          \<or> (calls' = calls @ [UploadFile, UploadFile] \<and> out = Returned
             \<and> \<not> success (uploadResult s)
             \<and> (error_includes (uploadResult s) ''authentication ID is not available''
                \<or> error_includes (uploadResult s) ''auth''
                \<or> error_includes (uploadResult s) ''credentials''
                \<or> error_includes (uploadResult s) ''token expired''
                \<or> error_includes (uploadResult s) ''token invalid''
                \<or> error_includes (uploadResult s) ''not authenticated'')
             \<and> authResponse s = RunAuth \<and> setupOk s \<and> refreshOk s))"
  using assms authPrompt_calls[of s]
  by (auto simp: uploadStep_def split: if_splits sum.splits)

lemma uploadFlow_try_calls:
  assumes "uploadFlow_try m h s uri fs = (out, bp, calls, fs')"
  shows "count_list calls ImportFile \<le> 1 \<and> count_list calls UploadFile \<le> 2
       \<and> (count_list calls UploadFile = 2 \<longrightarrow>
            out = Returned \<and> success (importResult s) \<and> \<not> success (uploadResult s)
          \<and> (error_includes (uploadResult s) ''authentication ID is not available''
             \<or> error_includes (uploadResult s) ''auth''
             \<or> error_includes (uploadResult s) ''credentials''
             \<or> error_includes (uploadResult s) ''token expired''
             \<or> error_includes (uploadResult s) ''token invalid''
             \<or> error_includes (uploadResult s) ''not authenticated'')
          \<and> authResponse s = RunAuth \<and> setupOk s \<and> refreshOk s)"
proof (cases "createBackup m h (clock_local s) uri Local fs")
  case (Pair r fs1)
  show ?thesis
  proof (cases r)
    case (Inl e)
    with Pair assms show ?thesis by (auto simp: uploadFlow_try_def)
  next
    case (Inr backupPath)
    show ?thesis
    proof (cases "success (importResult s)")
      case False
      with Pair Inr assms authPrompt_calls[of s] show ?thesis
        by (auto simp: uploadFlow_try_def Let_def split: if_splits)
    next
      case True
      show ?thesis
      proof (cases "createBackup m h (clock_account s) uri Account (applyImport s uri fs1)")
        case p2: (Pair r2 fs3)
        show ?thesis
        proof (cases r2)
          case (Inl e)
          with Pair Inr True p2 assms show ?thesis by (auto simp: uploadFlow_try_def Let_def)
        next
          case i2: (Inr abp)
          show ?thesis
          proof (cases "existsSync fs3 backupPath")
            case False
            with Pair Inr True p2 i2 assms show ?thesis
              by (auto simp: uploadFlow_try_def Let_def)
          next
            case ex: True
            show ?thesis
            proof (cases "restoreFile (restoreTimers s) (Some uri) (Some backupPath) fs3")
              case p3: (Pair r3 fs4)
              show ?thesis
              proof (cases r3)
                case (Inl e)
                with Pair Inr True p2 i2 ex p3 assms show ?thesis
                  by (auto simp: uploadFlow_try_def Let_def)
              next
                case i3: (Inr u)
                obtain o5 c5 fs5 where
                  u5: "uploadStep s backupPath abp [ImportFile, RestoreFile backupPath] fs4
                         = (o5, c5, fs5)"
                  by (cases "uploadStep s backupPath abp [ImportFile, RestoreFile backupPath] fs4")
                     auto
                with Pair Inr True p2 i2 ex p3 i3 assms have "out = o5" "calls = c5"
                  by (auto simp: uploadFlow_try_def Let_def)
                with uploadStep_calls[OF u5] True show ?thesis by auto
              qed
            qed
          qed
        qed
      qed
    qed
  qed
qed

text \<open>
  C6, as the claim states it, fails: in the first example run the upload fails, the user
  runs the authentication setup, and the upload is called a second time.
\<close>

theorem failed_upload_retried_counterexample:
  "\<not> success (uploadResult ex_session)
   \<and> uploadFlow ex_manager ex_host ex_session [''ws'', ''a.js''] ex_fs
      = (Returned, [ImportFile, RestoreFile ex_backupPath, UploadFile, UploadFile],
         Dir [(''ws'', Dir [(''a.js'', File ''let x = 1;''),
           (''backups'', Dir [(''prod'', Dir [
              (''local'',
                 Dir [(''a.js.2024-01-02T03-04-05-678Z.bak'', File ''let x = 1;''),
                      (''a.js.2024-01-02T03-04-05-678Z.bak.meta.json'', File ''/ws/a.js'')]),
              (''account'',
                 Dir [(''a.js.2024-01-02T03-04-09-000Z.bak'', File ''let x = 0;''),
                      (''a.js.2024-01-02T03-04-09-000Z.bak.meta.json'', File ''/ws/a.js'')])])])])])
   \<and> \<not> count_list [ImportFile, RestoreFile ex_backupPath, UploadFile, UploadFile] UploadFile \<le> 1"
  by code_simp

text \<open>
  C6, amended.  In one run of the upload command the import is called at most once, so a
  failed import is never attempted again.  The upload is called at most twice, and twice
  only when the import succeeded, the first upload failed with an error that mentions
  authentication or credentials, the user chose to run the authentication setup, and the
  setup and the refresh of the account information went through; the flow then returns,
  whatever the second upload answers.
\<close>

theorem upload_retried_at_most_once:
  assumes "uploadFlow m h s uri fs = (out, calls, fs')"
  shows "count_list calls ImportFile \<le> 1 \<and> count_list calls UploadFile \<le> 2
       \<and> (count_list calls UploadFile = 2 \<longrightarrow>
            out = Returned \<and> success (importResult s) \<and> \<not> success (uploadResult s)
          \<and> (error_includes (uploadResult s) ''authentication ID is not available''
             \<or> error_includes (uploadResult s) ''auth''
             \<or> error_includes (uploadResult s) ''credentials''
             \<or> error_includes (uploadResult s) ''token expired''
             \<or> error_includes (uploadResult s) ''token invalid''
             \<or> error_includes (uploadResult s) ''not authenticated'')
          \<and> authResponse s = RunAuth \<and> setupOk s \<and> refreshOk s)"
proof -
  obtain o' bp c' f' where t: "uploadFlow_try m h s uri fs = (o', bp, c', f')"
    by (cases "uploadFlow_try m h s uri fs") auto
  note k = uploadFlow_try_calls[OF t]
  show ?thesis
  proof (cases "\<exists>e b. o' = Thrown e \<and> bp = Some b")
    case True
    then obtain e b where "o' = Thrown e" "bp = Some b" by blast
    with t assms have "out = Thrown e" "calls = c' @ [RestoreFile b]"
      by (auto simp: uploadFlow_def split: prod.splits)
    with k \<open>o' = Thrown e\<close> show ?thesis by auto
  next
    case False
    with t assms have "out = o'" "calls = c'"
      by (auto simp: uploadFlow_def split: outcome.splits option.splits)
    with k show ?thesis by simp
  qed
qed

lemma ex_uploadFlow:
  "uploadFlow ex_manager ex_host ex_session [''ws'', ''a.js''] ex_fs
      = (Returned, [ImportFile, RestoreFile ex_backupPath, UploadFile, UploadFile],
         Dir [(''ws'', Dir [(''a.js'', File ''let x = 1;''),
           (''backups'', Dir [(''prod'', Dir [
              (''local'',
                 Dir [(''a.js.2024-01-02T03-04-05-678Z.bak'', File ''let x = 1;''),
                      (''a.js.2024-01-02T03-04-05-678Z.bak.meta.json'', File ''/ws/a.js'')]),
              (''account'',
                 Dir [(''a.js.2024-01-02T03-04-09-000Z.bak'', File ''let x = 0;''),
                      (''a.js.2024-01-02T03-04-09-000Z.bak.meta.json'', File ''/ws/a.js'')])])])])])"
  by code_simp

theorem upload_retried_at_most_once_witness:
  "count_list [ImportFile, RestoreFile ex_backupPath, UploadFile, UploadFile] ImportFile \<le> 1
   \<and> count_list [ImportFile, RestoreFile ex_backupPath, UploadFile, UploadFile] UploadFile = 2
   \<and> success (importResult ex_session) \<and> \<not> success (uploadResult ex_session)
   \<and> authResponse ex_session = RunAuth \<and> setupOk ex_session \<and> refreshOk ex_session"
proof -
  have c: "count_list [ImportFile, RestoreFile ex_backupPath, UploadFile, UploadFile] UploadFile = 2"
    by simp
  from upload_retried_at_most_once[OF ex_uploadFlow] c show ?thesis by simp
qed






















section \<open>Listing the backups\<close>





























end
